theory Spec2Isabelle
  imports Complex_Main "HOL-Library.AList" "HOL-Library.Log_Nat"
begin

section \<open>Remote-desktop session registry (remote\_desktop/session\_manager.py)\<close>

text \<open>
  Conventions of the embedding.
  \<^item> A \<open>datetime\<close> is an \<open>int\<close>: microseconds since the epoch. Every call of
    \<open>datetime.utcnow()\<close> in the source is a clock reading that the model takes as an
    argument, one argument per call site, in the order in which the source reads the clock.
  \<^item> \<open>uuid.uuid4()\<close> and \<open>secrets.token_urlsafe(32)\<close> are random; the model takes the
    generated session id and the two tokens as arguments.
  \<^item> A Python \<open>dict\<close> is an association list in insertion order, read with \<open>map_of\<close>,
    written with \<open>AList.update\<close> (an existing key keeps its place, a new key goes to the
    end) and \<open>AList.delete\<close>.
  \<^item> Objects held in a dictionary are mutated in place by the source; the model writes the
    changed object back under its key.
  \<^item> Logging has no effect on the state and is left out of the registry model.
\<close>

subsection \<open>RemoteSession\<close>

record remote_session =
  session_id :: string
  ticket_id :: int
  user_name :: string
  it_staff_name :: string
  created_at :: int
  expires_at :: int
  status :: string
  user_token :: string
  it_token :: string
  connection_key :: "string option"
  user_connected :: bool
  it_connected :: bool
  last_activity :: int

text \<open>\<open>timedelta(hours=2)\<close> in microseconds.\<close>

definition two_hours :: int where
  "two_hours = 2 * 60 * 60 * 1000000"

text \<open>\<open>RemoteSession.__init__\<close>: \<open>sid\<close>, \<open>utok\<close>, \<open>itok\<close> are the random values, \<open>now\<close>
  the clock reading stored in \<open>created_at\<close>.\<close>

definition new_session ::
  "string \<Rightarrow> string \<Rightarrow> string \<Rightarrow> int \<Rightarrow> int \<Rightarrow> string \<Rightarrow> string \<Rightarrow> remote_session" where
  "new_session sid utok itok now tid uname iname =
     \<lparr> session_id = sid, ticket_id = tid, user_name = uname, it_staff_name = iname,
       created_at = now, expires_at = now + two_hours, status = ''pending'',
       user_token = utok, it_token = itok, connection_key = None,
       user_connected = False, it_connected = False, last_activity = now \<rparr>"

definition is_expired :: "int \<Rightarrow> remote_session \<Rightarrow> bool" where
  "is_expired now s = (now > expires_at s)"

definition is_valid :: "int \<Rightarrow> remote_session \<Rightarrow> bool" where
  "is_valid now s = (\<not> is_expired now s \<and> status s \<noteq> ''closed'')"

text \<open>\<open>RemoteSession.activate\<close> reads the clock twice: in \<open>is_valid\<close> (\<open>t_chk\<close>) and for
  \<open>last_activity\<close> (\<open>t_act\<close>).\<close>

definition activate :: "int \<Rightarrow> int \<Rightarrow> remote_session \<Rightarrow> bool \<times> remote_session" where
  "activate t_chk t_act s =
     (if is_valid t_chk s then (True, s\<lparr>status := ''active'', last_activity := t_act\<rparr>)
      else (False, s))"

definition close :: "remote_session \<Rightarrow> remote_session" where
  "close s = s\<lparr>status := ''closed'', user_connected := False, it_connected := False\<rparr>"

definition update_activity :: "int \<Rightarrow> remote_session \<Rightarrow> remote_session" where
  "update_activity now s = s\<lparr>last_activity := now\<rparr>"

subsection \<open>SessionManager\<close>

record session_manager =
  sessions :: "(string \<times> remote_session) list"
  ticket_sessions :: "(int \<times> string) list"

datatype py_error = KeyError | ZeroDivisionError | OverflowError

definition init_manager :: session_manager where
  "init_manager = \<lparr> sessions = [], ticket_sessions = [] \<rparr>"

definition close_session :: "string \<Rightarrow> session_manager \<Rightarrow> bool \<times> session_manager" where
  "close_session sid m =
     (case map_of (sessions m) sid of
        None \<Rightarrow> (False, m)
      | Some s \<Rightarrow>
          (True,
           m\<lparr> sessions := AList.update sid (close s) (sessions m),
              ticket_sessions :=
                (if map_of (ticket_sessions m) (ticket_id s) \<noteq> None
                 then AList.delete (ticket_id s) (ticket_sessions m)
                 else ticket_sessions m) \<rparr>))"

definition create_session ::
  "string \<Rightarrow> string \<Rightarrow> string \<Rightarrow> int \<Rightarrow> int \<Rightarrow> string \<Rightarrow> string \<Rightarrow> session_manager
     \<Rightarrow> remote_session \<times> session_manager" where
  "create_session sid utok itok now tid uname iname m =
     (let m1 = (case map_of (ticket_sessions m) tid of
                  Some old_session_id \<Rightarrow> snd (close_session old_session_id m)
                | None \<Rightarrow> m);
          s = new_session sid utok itok now tid uname iname
      in (s, m1\<lparr> sessions := AList.update sid s (sessions m1),
                 ticket_sessions := AList.update tid sid (ticket_sessions m1) \<rparr>))"

definition get_session :: "int \<Rightarrow> string \<Rightarrow> session_manager \<Rightarrow> remote_session option" where
  "get_session now sid m =
     (case map_of (sessions m) sid of
        None \<Rightarrow> None
      | Some s \<Rightarrow> if is_valid now s then Some s else None)"

definition get_session_by_ticket :: "int \<Rightarrow> int \<Rightarrow> session_manager \<Rightarrow> remote_session option" where
  "get_session_by_ticket now tid m =
     (case map_of (ticket_sessions m) tid of
        None \<Rightarrow> None
      | Some sid \<Rightarrow> if sid \<noteq> [] then get_session now sid m else None)"

text \<open>The authentication calls read the clock in \<open>get_session\<close> (\<open>t_chk\<close>) and, on
  success, in \<open>update_activity\<close> (\<open>t_act\<close>).\<close>

definition authenticate_user ::
  "int \<Rightarrow> int \<Rightarrow> string \<Rightarrow> string \<Rightarrow> session_manager \<Rightarrow> bool \<times> session_manager" where
  "authenticate_user t_chk t_act sid token m =
     (case get_session t_chk sid m of
        Some s \<Rightarrow>
          if user_token s = token
          then (True, m\<lparr>sessions :=
                  AList.update sid (update_activity t_act (s\<lparr>user_connected := True\<rparr>)) (sessions m)\<rparr>)
          else (False, m)
      | None \<Rightarrow> (False, m))"

definition authenticate_it_staff ::
  "int \<Rightarrow> int \<Rightarrow> string \<Rightarrow> string \<Rightarrow> session_manager \<Rightarrow> bool \<times> session_manager" where
  "authenticate_it_staff t_chk t_act sid token m =
     (case get_session t_chk sid m of
        Some s \<Rightarrow>
          if it_token s = token
          then (True, m\<lparr>sessions :=
                  AList.update sid (update_activity t_act (s\<lparr>it_connected := True\<rparr>)) (sessions m)\<rparr>)
          else (False, m)
      | None \<Rightarrow> (False, m))"

text \<open>\<open>activate_session\<close> reads the clock in \<open>get_session\<close> (\<open>t_get\<close>) and then twice more
  inside \<open>session.activate()\<close>. The result of \<open>session.activate()\<close> is dropped: the
  method returns \<open>True\<close> whenever it reached that call.\<close>

definition activate_session ::
  "int \<Rightarrow> int \<Rightarrow> int \<Rightarrow> string \<Rightarrow> session_manager \<Rightarrow> bool \<times> session_manager" where
  "activate_session t_get t_chk t_act sid m =
     (case get_session t_get sid m of
        Some s \<Rightarrow>
          if user_connected s \<and> it_connected s
          then (True, m\<lparr>sessions := AList.update sid (snd (activate t_chk t_act s)) (sessions m)\<rparr>)
          else (False, m)
      | None \<Rightarrow> (False, m))"

definition disconnect_user :: "int \<Rightarrow> string \<Rightarrow> session_manager \<Rightarrow> session_manager" where
  "disconnect_user now sid m =
     (case get_session now sid m of
        Some s \<Rightarrow>
          (let s1 = s\<lparr>user_connected := False\<rparr>;
               s2 = (if status s1 = ''active'' then s1\<lparr>status := ''pending''\<rparr> else s1)
           in m\<lparr>sessions := AList.update sid s2 (sessions m)\<rparr>)
      | None \<Rightarrow> m)"

definition disconnect_it_staff :: "int \<Rightarrow> string \<Rightarrow> session_manager \<Rightarrow> session_manager" where
  "disconnect_it_staff now sid m =
     (case get_session now sid m of
        Some s \<Rightarrow>
          (let s1 = s\<lparr>it_connected := False\<rparr>;
               s2 = (if status s1 = ''active'' then s1\<lparr>status := ''pending''\<rparr> else s1)
           in m\<lparr>sessions := AList.update sid s2 (sessions m)\<rparr>)
      | None \<Rightarrow> m)"

definition update_session_activity ::
  "int \<Rightarrow> int \<Rightarrow> string \<Rightarrow> session_manager \<Rightarrow> session_manager" where
  "update_session_activity t_chk t_act sid m =
     (case get_session t_chk sid m of
        Some s \<Rightarrow> m\<lparr>sessions := AList.update sid (update_activity t_act s) (sessions m)\<rparr>
      | None \<Rightarrow> m)"

text \<open>\<open>cleanup_expired_sessions\<close>. The first loop reads the clock once per entry;
  \<open>clock i\<close> is the reading taken at the \<open>i\<close>-th entry. The second loop closes and deletes
  each collected id; \<open>del self.sessions[session_id]\<close> raises \<open>KeyError\<close> on a missing key,
  which leaves the loop with the state reached so far.\<close>

definition expired_sessions :: "(nat \<Rightarrow> int) \<Rightarrow> session_manager \<Rightarrow> string list" where
  "expired_sessions clock m =
     map (\<lambda>(i, sid, s). sid)
       (filter (\<lambda>(i, sid, s). is_expired (clock i) s) (enumerate 0 (sessions m)))"

fun cleanup_loop :: "string list \<Rightarrow> session_manager \<Rightarrow> py_error option \<times> session_manager" where
  "cleanup_loop [] m = (None, m)"
| "cleanup_loop (sid # rest) m =
     (let m1 = snd (close_session sid m)
      in case map_of (sessions m1) sid of
           None \<Rightarrow> (Some KeyError, m1)
         | Some _ \<Rightarrow> cleanup_loop rest (m1\<lparr>sessions := AList.delete sid (sessions m1)\<rparr>))"

definition cleanup_expired_sessions ::
  "(nat \<Rightarrow> int) \<Rightarrow> session_manager \<Rightarrow> py_error option \<times> session_manager" where
  "cleanup_expired_sessions clock m = cleanup_loop (expired_sessions clock m) m"


subsection \<open>Sequences of registry operations\<close>

text \<open>One constructor per public method of \<open>SessionManager\<close>, carrying the arguments of
  the call together with the clock readings and random values the call consumes.\<close>

datatype registry_op =
    CreateSession string string string int int string string
  | AuthenticateUser int int string string
  | AuthenticateItStaff int int string string
  | ActivateSession int int int string
  | DisconnectUser int string
  | DisconnectItStaff int string
  | UpdateSessionActivity int int string
  | CloseSession string
  | CleanupExpiredSessions "nat \<Rightarrow> int"

fun apply_op :: "registry_op \<Rightarrow> session_manager \<Rightarrow> session_manager" where
  "apply_op (CreateSession sid utok itok now tid uname iname) m =
     snd (create_session sid utok itok now tid uname iname m)"
| "apply_op (AuthenticateUser t_chk t_act sid token) m =
     snd (authenticate_user t_chk t_act sid token m)"
| "apply_op (AuthenticateItStaff t_chk t_act sid token) m =
     snd (authenticate_it_staff t_chk t_act sid token m)"
| "apply_op (ActivateSession t_get t_chk t_act sid) m =
     snd (activate_session t_get t_chk t_act sid m)"
| "apply_op (DisconnectUser now sid) m = disconnect_user now sid m"
| "apply_op (DisconnectItStaff now sid) m = disconnect_it_staff now sid m"
| "apply_op (UpdateSessionActivity t_chk t_act sid) m = update_session_activity t_chk t_act sid m"
| "apply_op (CloseSession sid) m = snd (close_session sid m)"
| "apply_op (CleanupExpiredSessions clock) m = snd (cleanup_expired_sessions clock m)"

text \<open>The registry after a sequence of calls on a freshly constructed \<open>SessionManager\<close>.\<close>

definition run :: "registry_op list \<Rightarrow> session_manager" where
  "run ops = fold apply_op ops init_manager"

subsection \<open>Concrete registry states used as test inputs\<close>

definition example_session :: remote_session where
  "example_session = new_session ''s1'' ''ut'' ''it'' 0 7 ''alice'' ''bob''"

definition connected_session :: remote_session where
  "connected_session = example_session\<lparr>user_connected := True, it_connected := True\<rparr>"

definition example_manager :: "remote_session \<Rightarrow> session_manager" where
  "example_manager s = \<lparr> sessions = [(''s1'', s)], ticket_sessions = [(7, ''s1'')] \<rparr>"

text \<open>Two sessions are created for ticket 7, one second apart; the sweep runs just after
  the first one has expired.\<close>

definition sweep_scenario :: "registry_op list" where
  "sweep_scenario =
     [CreateSession ''s1'' ''ut1'' ''it1'' 0 7 ''alice'' ''bob'',
      CreateSession ''s2'' ''ut2'' ''it2'' 1000000 7 ''alice'' ''bob'',
      CleanupExpiredSessions (\<lambda>i. two_hours + 1)]"

section \<open>Python numbers\<close>

text \<open>
  The pointer coordinates and viewport sizes arrive as JSON numbers; the model takes them as
  Python \<open>int\<close>s. \<open>x / screen_width\<close> is Python's true division and yields a \<open>float\<close>, an
  IEEE 754 double. A finite double is modelled by the rational number it denotes, and every
  float operation by the exact result rounded to the nearest double, ties to even
  (\<open>py_float\<close>): CPython's \<open>int / int\<close>, \<open>int\<close>-to-\<open>float\<close> conversion and \<open>float * float\<close>
  are all correctly rounded. A result beyond the double range is \<open>OverflowError\<close>: the
  division and the conversion raise it themselves, and a product that overflows to
  infinity makes the following \<open>int(...)\<close> raise it.
\<close>

definition round_half_even :: "rat \<Rightarrow> int" where
  "round_half_even r =
     (let f = \<lfloor>r\<rfloor>; d = r - of_int f
      in if d < 1 / 2 then f else if 1 / 2 < d then f + 1 else if even f then f else f + 1)"

text \<open>The exponent \<open>e\<close> with \<open>2 ^ e \<le> q < 2 ^ (e + 1)\<close> of a positive rational, from the
  bit lengths of its numerator and denominator.\<close>

definition floor_log2 :: "rat \<Rightarrow> int" where
  "floor_log2 q =
     (let (a, b) = quotient_of q; d = bitlen a - bitlen b
      in if 2 powi d \<le> q then d else d - 1)"

text \<open>Doubles have 53 significant bits; below \<open>2 ^ (- 1022)\<close> (subnormal numbers) the
  spacing stays at \<open>2 ^ (- 1074)\<close>.\<close>

definition py_float :: "rat \<Rightarrow> py_error + rat" where
  "py_float q =
     (if q = 0 then Inr 0
      else let e = max (floor_log2 \<bar>q\<bar>) (- 1022);
               ulp = 2 powi (e - 52);
               r = sgn q * of_int (round_half_even (\<bar>q\<bar> / ulp)) * ulp
           in if 2 powi 1024 \<le> \<bar>r\<bar> then Inl OverflowError else Inr r)"

text \<open>\<open>int(f)\<close> on a float truncates toward zero.\<close>

definition py_int :: "rat \<Rightarrow> int" where
  "py_int q = (if 0 \<le> q then \<lfloor>q\<rfloor> else - \<lfloor>- q\<rfloor>)"

text \<open>\<open>str.lower()\<close> on ASCII text (a \<open>char\<close> is a byte).\<close>

definition lower_char :: "char \<Rightarrow> char" where
  "lower_char c =
     (let n = (of_char c :: nat) in if 65 \<le> n \<and> n \<le> 90 then char_of (n + 32) else c)"

definition lower :: "string \<Rightarrow> string" where
  "lower s = map lower_char s"

section \<open>Input handler (remote\_desktop/input\_handler.py)\<close>

text \<open>
  The calls into \<open>pyautogui\<close> are the effects of this module. The model records each call
  that returned in \<open>dispatched\<close>, in order. Whether a call returns or raises is decided by
  the operating system; the handlers take it as the argument \<open>os_ok\<close>.
\<close>

datatype input_action =
    MoveTo int int
  | Click int int string
  | DoubleClick int int string
  | MouseDown int int string
  | MouseUp int int string
  | Scroll int int int
  | Press string
  | KeyDown string
  | KeyUp string
  | Hotkey "string list"
  | Write string

record input_handler =
  authorized_sessions :: "string set"
  screen_width :: int
  screen_height :: int
  dispatched :: "input_action list"

text \<open>\<open>InputHandler.__init__\<close>; the two arguments are what \<open>pyautogui.size()\<close> returns.\<close>

definition init_input_handler :: "int \<Rightarrow> int \<Rightarrow> input_handler" where
  "init_input_handler w h =
     \<lparr> authorized_sessions = {}, screen_width = w, screen_height = h, dispatched = [] \<rparr>"

definition authorize_session :: "string \<Rightarrow> input_handler \<Rightarrow> input_handler" where
  "authorize_session sid h = h\<lparr>authorized_sessions := insert sid (authorized_sessions h)\<rparr>"

definition revoke_session :: "string \<Rightarrow> input_handler \<Rightarrow> input_handler" where
  "revoke_session sid h = h\<lparr>authorized_sessions := authorized_sessions h - {sid}\<rparr>"

definition is_authorized :: "input_handler \<Rightarrow> string \<Rightarrow> bool" where
  "is_authorized h sid = (sid \<in> authorized_sessions h)"

text \<open>A \<open>pyautogui\<close> call inside \<open>try\<close>: when it returns the handler returns \<open>True\<close>, when it
  raises the handler logs the error and returns \<open>False\<close>.\<close>

definition perform ::
  "(input_action \<Rightarrow> bool) \<Rightarrow> input_action \<Rightarrow> input_handler \<Rightarrow> bool \<times> input_handler" where
  "perform os_ok a h =
     (if os_ok a then (True, h\<lparr>dispatched := dispatched h @ [a]\<rparr>) else (False, h))"

text \<open>\<open>int((v / src_dim) * local_dim)\<close>.\<close>

definition scale_coordinate :: "int \<Rightarrow> int \<Rightarrow> int \<Rightarrow> py_error + int" where
  "scale_coordinate v src_dim local_dim =
     (if src_dim = 0 then Inl ZeroDivisionError
      else case py_float (of_int v / of_int src_dim) of
             Inl e \<Rightarrow> Inl e
           | Inr q \<Rightarrow>
               (case py_float (of_int local_dim) of
                  Inl e \<Rightarrow> Inl e
                | Inr w \<Rightarrow>
                    (case py_float (q * w) of
                       Inl e \<Rightarrow> Inl e
                     | Inr p \<Rightarrow> Inr (py_int p))))"

definition handle_mouse_move ::
  "(input_action \<Rightarrow> bool) \<Rightarrow> input_handler \<Rightarrow> string \<Rightarrow> int \<Rightarrow> int \<Rightarrow> int \<Rightarrow> int
     \<Rightarrow> bool \<times> input_handler" where
  "handle_mouse_move os_ok h sid x y src_width src_height =
     (if \<not> is_authorized h sid then (False, h)
      else case scale_coordinate x src_width (screen_width h) of
             Inl e \<Rightarrow> (False, h)
           | Inr actual_x \<Rightarrow>
               (case scale_coordinate y src_height (screen_height h) of
                  Inl e \<Rightarrow> (False, h)
                | Inr actual_y \<Rightarrow>
                    perform os_ok
                      (MoveTo (max 0 (min actual_x (screen_width h - 1)))
                              (max 0 (min actual_y (screen_height h - 1)))) h))"

text \<open>The \<open>if\<close>/\<open>elif\<close> chain on \<open>click_type\<close>; no branch is taken for any other string.\<close>

definition click_action :: "string \<Rightarrow> int \<Rightarrow> int \<Rightarrow> string \<Rightarrow> input_action option" where
  "click_action click_type x y button =
     (if click_type = ''single'' then Some (Click x y button)
      else if click_type = ''double'' then Some (DoubleClick x y button)
      else if click_type = ''down'' then Some (MouseDown x y button)
      else if click_type = ''up'' then Some (MouseUp x y button)
      else None)"

definition handle_mouse_click ::
  "(input_action \<Rightarrow> bool) \<Rightarrow> input_handler \<Rightarrow> string \<Rightarrow> int \<Rightarrow> int \<Rightarrow> int \<Rightarrow> int
     \<Rightarrow> string \<Rightarrow> string \<Rightarrow> bool \<times> input_handler" where
  "handle_mouse_click os_ok h sid x y src_width src_height button click_type =
     (if \<not> is_authorized h sid then (False, h)
      else case scale_coordinate x src_width (screen_width h) of
             Inl e \<Rightarrow> (False, h)
           | Inr actual_x \<Rightarrow>
               (case scale_coordinate y src_height (screen_height h) of
                  Inl e \<Rightarrow> (False, h)
                | Inr actual_y \<Rightarrow>
                    (case click_action click_type
                            (max 0 (min actual_x (screen_width h - 1)))
                            (max 0 (min actual_y (screen_height h - 1))) button of
                       Some a \<Rightarrow> perform os_ok a h
                     | None \<Rightarrow> (True, h))))"

text \<open>\<open>delta\<close> is a Python \<open>int\<close>, so \<open>int(delta)\<close> is \<open>delta\<close>. The scaled coordinates go
  to \<open>pyautogui.scroll\<close> as they are.\<close>

definition handle_mouse_scroll ::
  "(input_action \<Rightarrow> bool) \<Rightarrow> input_handler \<Rightarrow> string \<Rightarrow> int \<Rightarrow> int \<Rightarrow> int \<Rightarrow> int
     \<Rightarrow> int \<Rightarrow> bool \<times> input_handler" where
  "handle_mouse_scroll os_ok h sid x y src_width src_height delta =
     (if \<not> is_authorized h sid then (False, h)
      else case scale_coordinate x src_width (screen_width h) of
             Inl e \<Rightarrow> (False, h)
           | Inr actual_x \<Rightarrow>
               (case scale_coordinate y src_height (screen_height h) of
                  Inl e \<Rightarrow> (False, h)
                | Inr actual_y \<Rightarrow> perform os_ok (Scroll delta actual_x actual_y) h))"

definition key_mapping :: "(string \<times> string) list" where
  "key_mapping =
     [(''Enter'', ''enter''), (''Backspace'', ''backspace''), (''Delete'', ''delete''),
      (''Tab'', ''tab''), (''Escape'', ''esc''), (''Space'', ''space''),
      (''ArrowUp'', ''up''), (''ArrowDown'', ''down''), (''ArrowLeft'', ''left''),
      (''ArrowRight'', ''right''), (''Home'', ''home''), (''End'', ''end''),
      (''PageUp'', ''pageup''), (''PageDown'', ''pagedown''), (''Insert'', ''insert''),
      (''F1'', ''f1''), (''F2'', ''f2''), (''F3'', ''f3''), (''F4'', ''f4''),
      (''F5'', ''f5''), (''F6'', ''f6''), (''F7'', ''f7''), (''F8'', ''f8''),
      (''F9'', ''f9''), (''F10'', ''f10''), (''F11'', ''f11''), (''F12'', ''f12'')]"

definition key_action :: "string \<Rightarrow> string \<Rightarrow> input_action option" where
  "key_action action actual_key =
     (if action = ''press'' then Some (Press actual_key)
      else if action = ''down'' then Some (KeyDown actual_key)
      else if action = ''up'' then Some (KeyUp actual_key)
      else None)"

definition handle_key_press ::
  "(input_action \<Rightarrow> bool) \<Rightarrow> input_handler \<Rightarrow> string \<Rightarrow> string \<Rightarrow> string
     \<Rightarrow> bool \<times> input_handler" where
  "handle_key_press os_ok h sid key action =
     (if \<not> is_authorized h sid then (False, h)
      else let actual_key = (case map_of key_mapping key of Some k \<Rightarrow> k | None \<Rightarrow> lower key)
           in case key_action action actual_key of
                Some a \<Rightarrow> perform os_ok a h
              | None \<Rightarrow> (True, h))"

definition convert_key :: "string \<Rightarrow> string" where
  "convert_key key =
     (if lower key = ''ctrl'' then ''ctrl''
      else if lower key = ''alt'' then ''alt''
      else if lower key = ''shift'' then ''shift''
      else if lower key = ''win'' \<or> lower key = ''cmd'' then ''win''
      else lower key)"

definition handle_key_combination ::
  "(input_action \<Rightarrow> bool) \<Rightarrow> input_handler \<Rightarrow> string \<Rightarrow> string list
     \<Rightarrow> bool \<times> input_handler" where
  "handle_key_combination os_ok h sid keys =
     (if \<not> is_authorized h sid then (False, h)
      else perform os_ok (Hotkey (map convert_key keys)) h)"

definition handle_text_input ::
  "(input_action \<Rightarrow> bool) \<Rightarrow> input_handler \<Rightarrow> string \<Rightarrow> string \<Rightarrow> bool \<times> input_handler" where
  "handle_text_input os_ok h sid text = 
     (if \<not> is_authorized h sid then (False, h)
      else perform os_ok (Write text) h)"

section \<open>Screen capture (remote\_desktop/screen\_capture.py)\<close>

text \<open>
  The capture loop runs on a thread of its own and shares \<open>running\<close> and \<open>frame_data\<close> with
  the callers of \<open>add_client\<close>, \<open>remove_client\<close> and \<open>get_frame\<close>. The model is sequential:
  one pass through the loop body is one step (\<open>capture_cycle\<close>), and a run of the service is
  a list of events in which client calls and loop passes are interleaved. What the screen
  grabber and OpenCV return or raise in a pass is the environment of that pass. The log
  keeps one entry per logging call, with the values that go into the message.
\<close>

record frame =
  image_b64 :: string
  width :: int
  height :: int
  timestamp :: rat

datatype capture_exception =
    GrabError string
  | ArithmeticError py_error
  | EncodeError string

datatype capture_log_entry =
    CaptureStarted int int
  | CaptureStopped
  | CaptureError capture_exception
  | ClientConnected string
  | ClientDisconnected string

record screen_capture =
  quality :: int
  fps :: int
  running :: bool
  frame_data :: "frame option"
  clients :: "string set"
  capture_thread :: bool
  capture_log :: "capture_log_entry list"

text \<open>\<open>ScreenCapture()\<close> with the default arguments; \<open>capture_thread\<close> is \<open>True\<close> once a
  thread object has been stored.\<close>

definition init_screen_capture :: screen_capture where
  "init_screen_capture =
     \<lparr> quality = 70, fps = 15, running = False, frame_data = None, clients = {},
       capture_thread = False, capture_log = [] \<rparr>"

definition start_capture :: "screen_capture \<Rightarrow> screen_capture" where
  "start_capture st =
     (if running st then st
      else st\<lparr> running := True, capture_thread := True,
               capture_log := capture_log st @ [CaptureStarted (fps st) (quality st)] \<rparr>)"

text \<open>\<open>stop_capture\<close> clears the flag and joins the thread, which leaves its loop at the
  next test of \<open>self.running\<close>.\<close>

definition stop_capture :: "screen_capture \<Rightarrow> screen_capture" where
  "stop_capture st = st\<lparr> running := False, capture_log := capture_log st @ [CaptureStopped] \<rparr>"

definition add_client :: "string \<Rightarrow> screen_capture \<Rightarrow> screen_capture" where
  "add_client client_id st =
     (let st1 = st\<lparr>clients := insert client_id (clients st)\<rparr>;
          st2 = (if \<not> running st1 then start_capture st1 else st1)
      in st2\<lparr>capture_log := capture_log st2 @ [ClientConnected client_id]\<rparr>)"

definition remove_client :: "string \<Rightarrow> screen_capture \<Rightarrow> screen_capture" where
  "remove_client client_id st =
     (let st1 = st\<lparr>clients := clients st - {client_id}\<rparr>;
          st2 = (if clients st1 = {} \<and> running st1 then stop_capture st1 else st1)
      in st2\<lparr>capture_log := capture_log st2 @ [ClientDisconnected client_id]\<rparr>)"

text \<open>\<open>self.frame_data.copy() if self.frame_data else None\<close>: a stored frame is a
  dictionary with four keys, hence true.\<close>

definition get_frame :: "screen_capture \<Rightarrow> frame option" where
  "get_frame st = (case frame_data st of Some f \<Rightarrow> Some f | None \<Rightarrow> None)"

text \<open>The environment of one pass through the loop body: what \<open>ImageGrab.grab()\<close> and the
  conversion to a BGR array give (an exception, or an image of some width and height),
  what resizing and JPEG/base64 encoding give for the final size (an exception, or the
  encoded text), and the reading of \<open>time.time()\<close> stored with the frame.\<close>

record cycle_env =
  grab :: "string + int \<times> int"
  encode :: "int \<Rightarrow> int \<Rightarrow> string + string"
  clock :: rat

text \<open>Screens wider than 1920 pixels are scaled down: \<open>scale = 1920 / width\<close>,
  \<open>int(width * scale)\<close>, \<open>int(height * scale)\<close>.\<close>

definition scaled_size :: "int \<Rightarrow> int \<Rightarrow> py_error + int \<times> int" where
  "scaled_size w h =
     (if w > 1920
      then case py_float (1920 / of_int w) of
             Inl e \<Rightarrow> Inl e
           | Inr scale \<Rightarrow>
               (case py_float (of_int w) of
                  Inl e \<Rightarrow> Inl e
                | Inr w_float \<Rightarrow>
                    (case py_float (w_float * scale) of
                       Inl e \<Rightarrow> Inl e
                     | Inr nw \<Rightarrow>
                         (case py_float (of_int h) of
                            Inl e \<Rightarrow> Inl e
                          | Inr h_float \<Rightarrow>
                              (case py_float (h_float * scale) of
                                 Inl e \<Rightarrow> Inl e
                               | Inr nh \<Rightarrow> Inr (py_int nw, py_int nh)))))
      else Inr (w, h))"

text \<open>The \<open>try\<close> block of the loop body: the exception it raises, or the frame it stores.\<close>

definition cycle_result :: "cycle_env \<Rightarrow> capture_exception + frame" where
  "cycle_result env =
     (case grab env of
        Inl msg \<Rightarrow> Inl (GrabError msg)
      | Inr (w, h) \<Rightarrow>
          (case scaled_size w h of
             Inl e \<Rightarrow> Inl (ArithmeticError e)
           | Inr (nw, nh) \<Rightarrow>
               (case encode env nw nh of
                  Inl msg \<Rightarrow> Inl (EncodeError msg)
                | Inr img \<Rightarrow>
                    Inr \<lparr> image_b64 = img, width = nw, height = nh, timestamp = clock env \<rparr>)))"

text \<open>One pass through the loop body: \<open>except Exception\<close> logs the error and falls through
  to the pacing sleep.\<close>

definition capture_cycle :: "cycle_env \<Rightarrow> screen_capture \<Rightarrow> screen_capture" where
  "capture_cycle env st =
     (case cycle_result env of
        Inl e \<Rightarrow> st\<lparr>capture_log := capture_log st @ [CaptureError e]\<rparr>
      | Inr f \<Rightarrow> st\<lparr>frame_data := Some f\<rparr>)"

text \<open>\<open>_capture_loop\<close> on the environments of its successive passes: \<open>while self.running\<close>
  is tested before each pass. The list ends where the observation of the loop ends.\<close>

fun capture_loop :: "cycle_env list \<Rightarrow> screen_capture \<Rightarrow> screen_capture" where
  "capture_loop [] st = st"
| "capture_loop (env # envs) st =
     (if running st then capture_loop envs (capture_cycle env st) else st)"

text \<open>Interleaving of client calls with passes of the capture thread.\<close>

datatype capture_event =
    AddClient string
  | RemoveClient string
  | Cycle cycle_env

fun apply_event :: "capture_event \<Rightarrow> screen_capture \<Rightarrow> screen_capture" where
  "apply_event (AddClient c) st = add_client c st"
| "apply_event (RemoveClient c) st = remove_client c st"
| "apply_event (Cycle env) st = (if running st then capture_cycle env st else st)"

definition run_events :: "capture_event list \<Rightarrow> screen_capture" where
  "run_events evs = fold apply_event evs init_screen_capture"

text \<open>A pass that completes a capture.\<close>

fun completes :: "capture_event \<Rightarrow> bool" where
  "completes (Cycle env) = (case cycle_result env of Inl e \<Rightarrow> False | Inr f \<Rightarrow> True)"
| "completes (AddClient c) = False"
| "completes (RemoveClient c) = False"

subsection \<open>Concrete capture environments used as test inputs\<close>

definition failing_env :: cycle_env where
  "failing_env = \<lparr> grab = Inl ''screen grab failed'', encode = (\<lambda>w h. Inr ''''), clock = 0 \<rparr>"

definition good_env :: cycle_env where
  "good_env = \<lparr> grab = Inr (1280, 720), encode = (\<lambda>w h. Inr ''QUJD''), clock = 5 \<rparr>"

definition example_frame :: frame where
  "example_frame = \<lparr> image_b64 = ''QUJD'', width = 1280, height = 720, timestamp = 5 \<rparr>"

definition example_events :: "capture_event list" where
  "example_events = [AddClient ''a'', Cycle failing_env, AddClient ''b'', RemoveClient ''a'']"

subsection \<open>Concrete input handlers and calls used as test inputs\<close>

text \<open>A 1920 by 1080 screen with connection \<open>c1\<close> authorized.\<close>

definition example_handler :: input_handler where
  "example_handler = authorize_session ''c1'' (init_input_handler 1920 1080)"

text \<open>One call of each of the six handlers; the list of their results.\<close>

definition typical_calls :: "(input_action \<Rightarrow> bool) \<Rightarrow> input_handler \<Rightarrow> string \<Rightarrow> bool list" where
  "typical_calls os_ok h sid =
     [fst (handle_mouse_move os_ok h sid 3840 0 1920 1080),
      fst (handle_mouse_click os_ok h sid 3840 0 1920 1080 ''left'' ''single''),
      fst (handle_mouse_scroll os_ok h sid 3840 0 1920 1080 1),
      fst (handle_key_press os_ok h sid ''Enter'' ''press''),
      fst (handle_key_combination os_ok h sid [''Ctrl'', ''C'']),
      fst (handle_text_input os_ok h sid ''hello'')]"

section \<open>Properties of the session registry\<close>

subsection \<open>Each operation in terms of the stored session\<close>

lemma get_session_None_iff:
  "get_session t sid m = None \<longleftrightarrow>
     (\<forall>s. map_of (sessions m) sid = Some s \<longrightarrow> expires_at s < t \<or> status s = ''closed'')"
  by (auto simp: get_session_def is_valid_def is_expired_def split: option.splits)

lemma authenticate_user_cases:
  "authenticate_user t t' sid tok m =
     (case map_of (sessions m) sid of
        None \<Rightarrow> (False, m)
      | Some s \<Rightarrow>
          if t \<le> expires_at s \<and> status s \<noteq> ''closed'' \<and> user_token s = tok
          then (True, m\<lparr>sessions :=
                  AList.update sid (s\<lparr>user_connected := True, last_activity := t'\<rparr>) (sessions m)\<rparr>)
          else (False, m))"
  by (simp add: authenticate_user_def get_session_def is_valid_def is_expired_def
        update_activity_def not_less split: option.splits)

lemma authenticate_it_staff_cases:
  "authenticate_it_staff t t' sid tok m =
     (case map_of (sessions m) sid of
        None \<Rightarrow> (False, m)
      | Some s \<Rightarrow>
          if t \<le> expires_at s \<and> status s \<noteq> ''closed'' \<and> it_token s = tok
          then (True, m\<lparr>sessions :=
                  AList.update sid (s\<lparr>it_connected := True, last_activity := t'\<rparr>) (sessions m)\<rparr>)
          else (False, m))"
  by (simp add: authenticate_it_staff_def get_session_def is_valid_def is_expired_def
        update_activity_def not_less split: option.splits)

lemma activate_session_cases:
  "activate_session t1 t2 t3 sid m =
     (case map_of (sessions m) sid of
        None \<Rightarrow> (False, m)
      | Some s \<Rightarrow>
          if t1 \<le> expires_at s \<and> status s \<noteq> ''closed'' \<and> user_connected s \<and> it_connected s
          then (True, m\<lparr>sessions := AList.update sid
                  (if t2 \<le> expires_at s then s\<lparr>status := ''active'', last_activity := t3\<rparr> else s)
                  (sessions m)\<rparr>)
          else (False, m))"
  by (simp add: activate_session_def activate_def get_session_def is_valid_def is_expired_def
        not_less split: option.splits)

lemma close_session_present:
  "map_of (sessions m) sid = Some s \<Longrightarrow>
     map_of (sessions (snd (close_session sid m))) = (map_of (sessions m))(sid \<mapsto> close s)"
  by (simp add: close_session_def AList.update_conv')

subsection \<open>Closed and expired sessions\<close>

text \<open>
  Claim C1. For a stored session that is closed, or whose \<open>expires_at\<close> lies before the
  clock reading of the call, \<open>get_session\<close> returns \<open>None\<close>, both authentication calls
  return \<open>False\<close> and leave the registry as it was, and \<open>update_session_activity\<close> leaves
  the registry (hence \<open>last_activity\<close>) as it was.
\<close>

theorem closed_or_expired_not_found:
  assumes "map_of (sessions m) sid = Some s"
    and "status s = ''closed'' \<or> expires_at s < t"
  shows "get_session t sid m = None
       \<and> authenticate_user t t' sid tok m = (False, m)
       \<and> authenticate_it_staff t t' sid tok m = (False, m)
       \<and> update_session_activity t t' sid m = m"
proof -
  from assms have "get_session t sid m = None"
    by (auto simp: get_session_None_iff)
  then show ?thesis
    by (simp add: authenticate_user_def authenticate_it_staff_def update_session_activity_def)
qed

text \<open>The theorem at a closed session (first two conjuncts) and at a session read one
  microsecond after its two hours have run out (last two).\<close>

theorem closed_or_expired_not_found_witness:
  "get_session 5 ''s1'' (example_manager (close example_session)) = None
   \<and> authenticate_user 5 6 ''s1'' ''ut'' (example_manager (close example_session))
       = (False, example_manager (close example_session))
   \<and> authenticate_it_staff (two_hours + 1) (two_hours + 2) ''s1'' ''it''
         (example_manager example_session)
       = (False, example_manager example_session)
   \<and> update_session_activity (two_hours + 1) (two_hours + 2) ''s1''
         (example_manager example_session)
       = example_manager example_session"
  using closed_or_expired_not_found [of "example_manager (close example_session)" "''s1''"
          "close example_session" 5 6 "''ut''"]
        closed_or_expired_not_found [of "example_manager example_session" "''s1''"
          example_session "two_hours + 1" "two_hours + 2" "''it''"]
  by (simp add: example_manager_def example_session_def new_session_def close_def)

subsection \<open>Authentication\<close>

text \<open>
  Claim C7. \<open>authenticate_user\<close> (\<open>authenticate_it_staff\<close>) returns \<open>True\<close> exactly when
  the session is stored, not expired at the clock reading, not closed, and the presented
  token equals the stored user (IT) token. On success the stored session gets its
  \<open>user_connected\<close> (\<open>it_connected\<close>) flag set and \<open>last_activity\<close> set to the second clock
  reading, every other entry and the ticket map stay as they were; on failure the registry
  is unchanged.
\<close>

theorem authenticate_exact:
  "(fst (authenticate_user t t' sid tok m) \<longleftrightarrow>
      (\<exists>s. map_of (sessions m) sid = Some s \<and> t \<le> expires_at s \<and> status s \<noteq> ''closed''
           \<and> user_token s = tok))
   \<and> (\<forall>s. map_of (sessions m) sid = Some s \<and> fst (authenticate_user t t' sid tok m) \<longrightarrow>
         map_of (sessions (snd (authenticate_user t t' sid tok m)))
           = (map_of (sessions m))(sid \<mapsto> s\<lparr>user_connected := True, last_activity := t'\<rparr>)
         \<and> ticket_sessions (snd (authenticate_user t t' sid tok m)) = ticket_sessions m)
   \<and> (\<not> fst (authenticate_user t t' sid tok m) \<longrightarrow>
         snd (authenticate_user t t' sid tok m) = m)
   \<and> (fst (authenticate_it_staff t t' sid tok m) \<longleftrightarrow>
      (\<exists>s. map_of (sessions m) sid = Some s \<and> t \<le> expires_at s \<and> status s \<noteq> ''closed''
           \<and> it_token s = tok))
   \<and> (\<forall>s. map_of (sessions m) sid = Some s \<and> fst (authenticate_it_staff t t' sid tok m) \<longrightarrow>
         map_of (sessions (snd (authenticate_it_staff t t' sid tok m)))
           = (map_of (sessions m))(sid \<mapsto> s\<lparr>it_connected := True, last_activity := t'\<rparr>)
         \<and> ticket_sessions (snd (authenticate_it_staff t t' sid tok m)) = ticket_sessions m)
   \<and> (\<not> fst (authenticate_it_staff t t' sid tok m) \<longrightarrow>
         snd (authenticate_it_staff t t' sid tok m) = m)"
  by (auto simp: authenticate_user_cases authenticate_it_staff_cases AList.update_conv'
        split: option.splits)

text \<open>The theorem at a live session: the right user token is accepted and recorded, the
  IT token presented as a user token is refused and changes nothing.\<close>

theorem authenticate_exact_witness:
  "fst (authenticate_user 5 6 ''s1'' ''ut'' (example_manager example_session))
   \<and> map_of (sessions (snd (authenticate_user 5 6 ''s1'' ''ut'' (example_manager example_session))))
         ''s1''
       = Some (example_session\<lparr>user_connected := True, last_activity := 6\<rparr>)
   \<and> \<not> fst (authenticate_user 5 6 ''s1'' ''it'' (example_manager example_session))
   \<and> snd (authenticate_user 5 6 ''s1'' ''it'' (example_manager example_session))
       = example_manager example_session"
  using authenticate_exact [of 5 6 "''s1''" "''ut''" "example_manager example_session"]
        authenticate_exact [of 5 6 "''s1''" "''it''" "example_manager example_session"]
  by (simp add: example_manager_def example_session_def new_session_def two_hours_def)

subsection \<open>Activation\<close>

text \<open>What \<open>activate_session\<close> returns, and what it stores when the session is still
  unexpired at the clock reading taken inside \<open>RemoteSession.activate\<close>.\<close>

lemma activate_session_returns:
  "fst (activate_session t1 t2 t3 sid m) \<longleftrightarrow>
     (\<exists>s. map_of (sessions m) sid = Some s \<and> t1 \<le> expires_at s \<and> status s \<noteq> ''closed''
          \<and> user_connected s \<and> it_connected s)"
  by (auto simp: activate_session_cases split: option.splits)

lemma activate_session_sets_active:
  assumes "map_of (sessions m) sid = Some s"
    and "fst (activate_session t1 t2 t3 sid m)"
    and "t2 \<le> expires_at s"
  shows "map_of (sessions (snd (activate_session t1 t2 t3 sid m))) sid
           = Some (s\<lparr>status := ''active'', last_activity := t3\<rparr>)"
  using assms by (auto simp: activate_session_cases AList.update_conv' split: if_splits)

text \<open>No other operation makes a session active.\<close>

lemma close_session_active:
  assumes "map_of (sessions (snd (close_session x m))) sid = Some s'" and "status s' = ''active''"
  shows "map_of (sessions m) sid = Some s'"
  using assms
  by (auto simp: close_session_def AList.update_conv' close_def split: option.splits if_splits)

lemma cleanup_loop_active:
  "map_of (sessions (snd (cleanup_loop xs m))) sid = Some s' \<Longrightarrow> status s' = ''active''
     \<Longrightarrow> map_of (sessions m) sid = Some s'"
proof (induction xs arbitrary: m)
  case Nil
  then show ?case by simp
next
  case (Cons x xs)
  let ?m1 = "snd (close_session x m)"
  show ?case
  proof (cases "map_of (sessions ?m1) x")
    case None
    with Cons.prems have "map_of (sessions ?m1) sid = Some s'"
      by (simp add: Let_def)
    then show ?thesis using Cons.prems(2) by (rule close_session_active)
  next
    case (Some a)
    with Cons.prems have
      "map_of (sessions (snd (cleanup_loop xs (?m1\<lparr>sessions := AList.delete x (sessions ?m1)\<rparr>)))) sid
         = Some s'"
      by (simp add: Let_def)
    from Cons.IH [OF this Cons.prems(2)]
    have "map_of (sessions ?m1) sid = Some s'"
      by (simp add: AList.delete_conv' split: if_splits)
    then show ?thesis using Cons.prems(2) by (rule close_session_active)
  qed
qed

lemma active_only_by_activate_session:
  assumes "map_of (sessions (apply_op op m)) sid = Some s'" and "status s' = ''active''"
  shows "(\<exists>s. map_of (sessions m) sid = Some s \<and> status s = ''active'')
       \<or> (\<exists>t1 t2 t3 s. op = ActivateSession t1 t2 t3 sid \<and> map_of (sessions m) sid = Some s
             \<and> t1 \<le> expires_at s \<and> t2 \<le> expires_at s \<and> status s \<noteq> ''closed''
             \<and> user_connected s \<and> it_connected s)"
proof (cases op)
  case (CreateSession sid' utok itok now tid uname iname)
  with assms show ?thesis
    by (auto simp: create_session_def Let_def AList.update_conv' new_session_def
          split: option.splits if_splits dest: close_session_active)
next
  case (AuthenticateUser t1 t2 x tok)
  with assms show ?thesis
    by (auto simp: authenticate_user_def get_session_def update_activity_def AList.update_conv'
          split: option.splits if_splits)
next
  case (AuthenticateItStaff t1 t2 x tok)
  with assms show ?thesis
    by (auto simp: authenticate_it_staff_def get_session_def update_activity_def AList.update_conv'
          split: option.splits if_splits)
next
  case (ActivateSession t1 t2 t3 x)
  with assms show ?thesis
    by (auto simp: activate_session_cases AList.update_conv' split: option.splits if_splits)
next
  case (DisconnectUser t x)
  with assms show ?thesis
    by (auto simp: disconnect_user_def get_session_def AList.update_conv' Let_def
          split: option.splits if_splits)
next
  case (DisconnectItStaff t x)
  with assms show ?thesis
    by (auto simp: disconnect_it_staff_def get_session_def AList.update_conv' Let_def
          split: option.splits if_splits)
next
  case (UpdateSessionActivity t1 t2 x)
  with assms show ?thesis
    by (auto simp: update_session_activity_def get_session_def update_activity_def
          AList.update_conv' split: option.splits if_splits)
next
  case (CloseSession x)
  with assms show ?thesis by (auto dest: close_session_active)
next
  case (CleanupExpiredSessions clock)
  with assms show ?thesis
    by (auto simp: cleanup_expired_sessions_def dest: cleanup_loop_active)
qed

text \<open>
  Claim C2. \<open>activate_session\<close> is to return \<open>True\<close> exactly for a live session with both
  connected flags set, and to set \<open>status\<close> to \<open>active\<close> whenever it returns \<open>True\<close>. The
  source checks liveness in \<open>get_session\<close>, then calls \<open>session.activate()\<close>, which reads
  the clock again and does nothing when the session has expired meanwhile; its result is
  not inspected. At the input below the session expires at \<open>two_hours\<close>, the first reading
  is \<open>two_hours\<close> (not yet expired) and the second \<open>two_hours + 1\<close>: the call returns
  \<open>True\<close> and the registry, with the session still \<open>pending\<close>, is unchanged.
\<close>

theorem activate_session_true_but_not_active:
  "activate_session two_hours (two_hours + 1) (two_hours + 1) ''s1''
       (example_manager connected_session) = (True, example_manager connected_session)
   \<and> status connected_session = ''pending''
   \<and> user_connected connected_session \<and> it_connected connected_session
   \<and> expires_at connected_session = two_hours"
  by (simp add: activate_session_def activate_def get_session_def is_valid_def is_expired_def
        example_manager_def connected_session_def example_session_def new_session_def)

subsection \<open>The two maps as a pair\<close>

text \<open>
  Claim C5. Every live session in \<open>sessions\<close> is to have its ticket mapped to its own id
  in \<open>ticket_sessions\<close>. \<open>close_session\<close> deletes the ticket's entry without looking at
  which session it points to. In \<open>sweep_scenario\<close> the sweep closes the first session of
  ticket 7 and thereby deletes the entry that points to the second: \<open>s2\<close> is live
  (\<open>get_session\<close> returns it), ticket 7 has no entry and \<open>get_session_by_ticket\<close> finds
  nothing.
\<close>

theorem sweep_drops_live_session_mapping:
  "get_session (two_hours + 2) ''s2'' (run sweep_scenario)
     = Some (new_session ''s2'' ''ut2'' ''it2'' 1000000 7 ''alice'' ''bob'')
   \<and> map_of (ticket_sessions (run sweep_scenario)) 7 = None
   \<and> get_session_by_ticket (two_hours + 2) 7 (run sweep_scenario) = None"
  by (simp add: run_def sweep_scenario_def init_manager_def create_session_def close_session_def
        cleanup_expired_sessions_def expired_sessions_def new_session_def close_def
        is_expired_def is_valid_def get_session_def get_session_by_ticket_def two_hours_def
        Let_def)

subsection \<open>A second session for the same ticket\<close>

text \<open>
  Claim C6, as amended. When \<open>ticket_sessions\<close> maps the ticket to a stored session
  \<open>old\<close>, \<open>create_session\<close> (with a new id different from \<open>old\<close>) closes that session and
  leaves it in \<open>sessions\<close> with status \<open>closed\<close>, maps the ticket to the new id, stores the
  new session, and \<open>get_session\<close> on \<open>old\<close> returns \<open>None\<close> at every later clock reading.
\<close>

theorem create_session_invalidates_prior:
  assumes "map_of (ticket_sessions m) tid = Some old"
    and "map_of (sessions m) old = Some s"
    and "sid \<noteq> old"
  shows "map_of (sessions (snd (create_session sid utok itok now tid uname iname m))) old
           = Some (close s)
       \<and> map_of (ticket_sessions (snd (create_session sid utok itok now tid uname iname m))) tid
           = Some sid
       \<and> map_of (sessions (snd (create_session sid utok itok now tid uname iname m))) sid
           = Some (new_session sid utok itok now tid uname iname)
       \<and> get_session t old (snd (create_session sid utok itok now tid uname iname m)) = None"
  using assms
  by (simp add: create_session_def Let_def AList.update_conv' close_session_present
        get_session_def is_valid_def close_def)

text \<open>The theorem at a live session \<open>s1\<close> of ticket 7 (found by \<open>get_session\<close> before the
  call) and a new session \<open>s2\<close>.\<close>

theorem create_session_invalidates_prior_witness:
  "map_of (sessions (snd (create_session ''s2'' ''ut2'' ''it2'' 10 7 ''alice'' ''bob''
      (example_manager example_session)))) ''s1'' = Some (close example_session)
   \<and> map_of (ticket_sessions (snd (create_session ''s2'' ''ut2'' ''it2'' 10 7 ''alice'' ''bob''
      (example_manager example_session)))) 7 = Some ''s2''
   \<and> get_session 11 ''s1'' (snd (create_session ''s2'' ''ut2'' ''it2'' 10 7 ''alice'' ''bob''
      (example_manager example_session))) = None
   \<and> get_session 9 ''s1'' (example_manager example_session) = Some example_session"
  using create_session_invalidates_prior [of "example_manager example_session" 7 "''s1''"
          example_session "''s2''" "''ut2''" "''it2''" 10 "''alice''" "''bob''" 11]
  by (simp add: example_manager_def example_session_def new_session_def get_session_def
        is_valid_def is_expired_def two_hours_def close_def)

text \<open>Claim C6 as stated says that both maps' entries for the old id are cleared. The
  entry of the old id in \<open>sessions\<close> is still there after the call.\<close>

theorem create_session_keeps_old_entry:
  "map_of (sessions (snd (create_session ''s2'' ''ut2'' ''it2'' 10 7 ''alice'' ''bob''
      (example_manager example_session)))) ''s1'' \<noteq> None"
  by (simp add: create_session_def close_session_def example_manager_def example_session_def
        new_session_def close_def Let_def)


section \<open>Properties of the screen capture\<close>

subsection \<open>Clients and the running flag\<close>

lemma apply_event_running_iff:
  assumes "running st \<longleftrightarrow> clients st \<noteq> {}"
  shows "running (apply_event ev st) \<longleftrightarrow> clients (apply_event ev st) \<noteq> {}"
proof (cases ev)
  case (AddClient c)
  then show ?thesis by (simp add: add_client_def start_capture_def Let_def)
next
  case (RemoveClient c)
  with assms show ?thesis by (auto simp: remove_client_def stop_capture_def Let_def)
next
  case (Cycle env)
  with assms show ?thesis by (simp add: capture_cycle_def split: sum.splits)
qed

lemma fold_apply_event_running_iff:
  "(running st \<longleftrightarrow> clients st \<noteq> {}) \<Longrightarrow>
     (running (fold apply_event evs st) \<longleftrightarrow> clients (fold apply_event evs st) \<noteq> {})"
proof (induction evs arbitrary: st)
  case Nil
  then show ?case by simp
next
  case (Cons ev evs)
  from Cons.prems have "running (apply_event ev st) \<longleftrightarrow> clients (apply_event ev st) \<noteq> {}"
    by (rule apply_event_running_iff)
  then show ?case using Cons.IH by simp
qed

lemma apply_event_no_frame:
  assumes "frame_data st = None" and "\<not> completes ev"
  shows "frame_data (apply_event ev st) = None"
  using assms
  by (cases ev)
     (auto simp: add_client_def remove_client_def start_capture_def stop_capture_def Let_def
        capture_cycle_def split: sum.splits)

lemma fold_apply_event_no_frame:
  "frame_data st = None \<Longrightarrow> \<forall>ev \<in> set evs. \<not> completes ev \<Longrightarrow>
     frame_data (fold apply_event evs st) = None"
proof (induction evs arbitrary: st)
  case Nil
  then show ?case by simp
next
  case (Cons ev evs)
  from Cons.prems have "frame_data (apply_event ev st) = None"
    by (intro apply_event_no_frame) simp_all
  then show ?case using Cons.IH Cons.prems(2) by simp
qed

text \<open>
  Claim C8. In every state reached from a new \<open>ScreenCapture\<close> by \<open>add_client\<close> and
  \<open>remove_client\<close> calls, interleaved in any way with passes of the capture loop, the loop
  is running exactly when a client is registered; \<open>add_client\<close> with no client registered
  and the loop stopped starts the loop; \<open>remove_client\<close> of the only client stops it; and
  as long as no pass of the loop has completed a capture, \<open>get_frame\<close> returns \<open>None\<close>.
\<close>

theorem capture_runs_iff_client_registered:
  "(running (run_events evs) \<longleftrightarrow> clients (run_events evs) \<noteq> {})
   \<and> (clients st = {} \<and> \<not> running st \<longrightarrow>
         running (add_client c st) \<and> clients (add_client c st) = {c})
   \<and> (clients st = {c} \<and> running st \<longrightarrow>
         \<not> running (remove_client c st) \<and> clients (remove_client c st) = {})
   \<and> ((\<forall>ev \<in> set evs. \<not> completes ev) \<longrightarrow> get_frame (run_events evs) = None)"
proof -
  have 1: "running (run_events evs) \<longleftrightarrow> clients (run_events evs) \<noteq> {}"
    unfolding run_events_def
    by (rule fold_apply_event_running_iff) (simp add: init_screen_capture_def)
  have 2: "clients st = {} \<and> \<not> running st \<longrightarrow>
         running (add_client c st) \<and> clients (add_client c st) = {c}"
    by (simp add: add_client_def start_capture_def Let_def)
  have 3: "clients st = {c} \<and> running st \<longrightarrow>
         \<not> running (remove_client c st) \<and> clients (remove_client c st) = {}"
    by (simp add: remove_client_def stop_capture_def Let_def)
  have 4: "(\<forall>ev \<in> set evs. \<not> completes ev) \<longrightarrow> get_frame (run_events evs) = None"
  proof
    assume "\<forall>ev \<in> set evs. \<not> completes ev"
    with fold_apply_event_no_frame [of init_screen_capture evs]
    have "frame_data (run_events evs) = None"
      by (simp add: run_events_def init_screen_capture_def)
    then show "get_frame (run_events evs) = None" by (simp add: get_frame_def)
  qed
  from 1 2 3 4 show ?thesis by blast
qed

text \<open>The theorem on a run with two clients and a failing pass, and on the first and the
  last client.\<close>

theorem capture_runs_iff_client_registered_witness:
  "running (run_events example_events)
   \<and> clients (run_events example_events) = {''b''}
   \<and> running (add_client ''a'' init_screen_capture)
   \<and> \<not> running (remove_client ''b'' (run_events example_events))
   \<and> get_frame (run_events example_events) = None"
  using capture_runs_iff_client_registered [of example_events init_screen_capture "''a''"]
        capture_runs_iff_client_registered [of example_events "run_events example_events" "''b''"]
  by (auto simp: run_events_def example_events_def init_screen_capture_def add_client_def
        remove_client_def start_capture_def stop_capture_def capture_cycle_def cycle_result_def
        failing_env_def get_frame_def Let_def)

subsection \<open>A failing pass of the capture loop\<close>

text \<open>
  Claim C9. When the \<open>try\<close> block of a pass raises (in the grab, the scaling or the
  encoding), the pass appends the error to the log and changes nothing else: \<open>get_frame\<close>
  returns what it returned before, \<open>running\<close> is as before, and the loop, while running,
  goes on with the remaining passes.
\<close>

theorem failed_cycle_keeps_frame_and_loop:
  assumes "cycle_result env = Inl e"
  shows "capture_cycle env st = st\<lparr>capture_log := capture_log st @ [CaptureError e]\<rparr>
       \<and> get_frame (capture_cycle env st) = get_frame st
       \<and> running (capture_cycle env st) = running st
       \<and> capture_loop (env # envs) (st\<lparr>running := True\<rparr>)
           = capture_loop envs (st\<lparr>running := True,
                                     capture_log := capture_log st @ [CaptureError e]\<rparr>)"
  using assms by (simp add: capture_cycle_def get_frame_def)

text \<open>The theorem on a failing pass after a good one (the good frame is still returned) and
  before a good one (the loop goes on and stores the frame).\<close>

theorem failed_cycle_keeps_frame_and_loop_witness:
  "get_frame (capture_loop [good_env, failing_env] (start_capture init_screen_capture))
     = Some example_frame
   \<and> get_frame (capture_loop [failing_env, good_env] (start_capture init_screen_capture))
     = Some example_frame
   \<and> capture_log (capture_loop [good_env, failing_env] (start_capture init_screen_capture))
     = [CaptureStarted 15 70, CaptureError (GrabError ''screen grab failed'')]"
  using failed_cycle_keeps_frame_and_loop [of failing_env "GrabError ''screen grab failed''"
          "capture_cycle good_env (start_capture init_screen_capture)" "[]"]
        failed_cycle_keeps_frame_and_loop [of failing_env "GrabError ''screen grab failed''"
          "start_capture init_screen_capture" "[good_env]"]
  by (simp add: capture_cycle_def cycle_result_def failing_env_def good_env_def scaled_size_def
        start_capture_def init_screen_capture_def get_frame_def example_frame_def)

section \<open>Properties of the float model\<close>

subsection \<open>Powers of two and the exponent of a rational\<close>

lemma powi2_pos: "0 < (2::rat) powi e"
  by (simp add: power_int_def)

lemma powi2_mono: "a \<le> b \<Longrightarrow> (2::rat) powi a \<le> 2 powi b"
  by (rule power_int_increasing) simp_all

lemma powi2_less_iff: "(2::rat) powi a < 2 powi b \<longleftrightarrow> a < b"
proof
  assume "(2::rat) powi a < 2 powi b"
  show "a < b"
  proof (rule ccontr)
    assume "\<not> a < b"
    then have "(2::rat) powi b \<le> 2 powi a" by (intro powi2_mono) simp
    with \<open>(2::rat) powi a < 2 powi b\<close> show False by simp
  qed
next
  assume "a < b"
  then show "(2::rat) powi a < 2 powi b" by (rule power_int_strict_increasing) simp
qed

lemma bitlen_powi:
  assumes "0 < a"
  shows "(2::rat) powi (bitlen a - 1) \<le> of_int a" and "of_int a < (2::rat) powi bitlen a"
proof -
  from bitlen_bounds [OF assms]
  have lo: "2 ^ nat (bitlen a - 1) \<le> a" and hi: "a < 2 ^ nat (bitlen a)" by simp_all
  have b1: "1 \<le> bitlen a" using assms by (auto simp: bitlen_alt_def)
  have "(2::rat) powi (bitlen a - 1) = of_int (2 ^ nat (bitlen a - 1))"
    using b1 by (simp add: power_int_def)
  also have "\<dots> \<le> of_int a" using lo by (simp only: of_int_le_iff)
  finally show "(2::rat) powi (bitlen a - 1) \<le> of_int a" .
  have "of_int a < (of_int (2 ^ nat (bitlen a)) :: rat)" using hi by (simp only: of_int_less_iff)
  also have "\<dots> = 2 powi bitlen a" using b1 by (simp add: power_int_def)
  finally show "of_int a < (2::rat) powi bitlen a" .
qed

lemma floor_log2_bounds:
  assumes "0 < q"
  shows "2 powi (floor_log2 q) \<le> q \<and> q < 2 powi (floor_log2 q + 1)"
proof -
  obtain a b where ab: "quotient_of q = (a, b)" by (cases "quotient_of q")
  then have b: "0 < b" by (rule quotient_of_denom_pos)
  have q: "q = of_int a / of_int b" using ab by (rule quotient_of_div)
  from assms q b have a: "0 < a" by (simp add: zero_less_divide_iff)
  define d where "d = bitlen a - bitlen b"
  have bpos: "(0::rat) < of_int b" using b by simp
  have lo: "2 powi (d - 1) \<le> q"
  proof -
    have "2 powi (d - 1) * of_int b \<le> (2::rat) powi (d - 1) * 2 powi bitlen b"
      using bitlen_powi(2) [OF b] powi2_pos [of "d - 1"] by (simp add: less_imp_le)
    also have "\<dots> = 2 powi (bitlen a - 1)"
      by (simp add: d_def flip: power_int_add)
    also have "\<dots> \<le> of_int a" by (rule bitlen_powi(1) [OF a])
    finally show ?thesis using bpos by (simp add: q pos_le_divide_eq)
  qed
  have hi: "q < 2 powi (d + 1)"
  proof -
    have "of_int a < (2::rat) powi bitlen a" by (rule bitlen_powi(2) [OF a])
    also have "\<dots> = 2 powi (d + 1) * 2 powi (bitlen b - 1)"
      by (simp add: d_def flip: power_int_add)
    also have "\<dots> \<le> 2 powi (d + 1) * of_int b"
      using bitlen_powi(1) [OF b] powi2_pos [of "d + 1"] by simp
    finally show ?thesis using bpos by (simp add: q pos_divide_less_eq)
  qed
  show ?thesis
  proof (cases "2 powi d \<le> q")
    case True
    then have "floor_log2 q = d" by (simp add: floor_log2_def ab d_def)
    with True hi show ?thesis by simp
  next
    case False
    then have "floor_log2 q = d - 1" by (simp add: floor_log2_def ab d_def)
    with False lo show ?thesis by simp
  qed
qed

lemma floor_log2_eqI:
  assumes "2 powi e \<le> q" and "q < 2 powi (e + 1)"
  shows "floor_log2 q = e"
proof -
  have q: "0 < q" using assms(1) powi2_pos [of e] by (rule less_le_trans [rotated])
  from floor_log2_bounds [OF q]
  have lo: "2 powi (floor_log2 q) \<le> q" and hi: "q < 2 powi (floor_log2 q + 1)" by simp_all
  have "(2::rat) powi e < 2 powi (floor_log2 q + 1)" using assms(1) hi by simp
  then have 1: "e < floor_log2 q + 1" by (simp only: powi2_less_iff)
  have "(2::rat) powi (floor_log2 q) < 2 powi (e + 1)" using lo assms(2) by simp
  then have 2: "floor_log2 q < e + 1" by (simp only: powi2_less_iff)
  from 1 2 show ?thesis by simp
qed


subsection \<open>Rounding to nearest, ties to even\<close>

lemma round_half_even_ge: "of_int N \<le> r \<Longrightarrow> N \<le> round_half_even r"
proof -
  assume "of_int N \<le> r"
  then have "N \<le> \<lfloor>r\<rfloor>" by (simp add: le_floor_iff)
  then show ?thesis by (simp add: round_half_even_def Let_def)
qed

lemma round_half_even_le: "r \<le> of_int N \<Longrightarrow> round_half_even r \<le> N"
proof -
  assume r: "r \<le> of_int N"
  then have f: "\<lfloor>r\<rfloor> \<le> N" by (simp add: floor_le_iff) 
  show ?thesis
  proof (cases "r = of_int \<lfloor>r\<rfloor>")
    case True
    then have "r - of_int \<lfloor>r\<rfloor> = 0" by simp
    then show ?thesis using f by (simp add: round_half_even_def Let_def)
  next
    case False
    then have "of_int \<lfloor>r\<rfloor> < r" using of_int_floor_le [of r] by (metis less_le)
    with r have "(of_int \<lfloor>r\<rfloor> :: rat) < of_int N" by simp
    then have "\<lfloor>r\<rfloor> < N" by (simp only: of_int_less_iff)
    then show ?thesis by (simp add: round_half_even_def Let_def)
  qed
qed

lemma round_half_even_of_int: "round_half_even (of_int n) = n"
  by (simp add: round_half_even_def)

subsection \<open>Rounding to a double\<close>

text \<open>Once the exponent of \<open>q\<close> is known, \<open>py_float q\<close> is a closed expression; this is
  how \<open>py_float\<close> is evaluated on concrete numbers below.\<close>

lemma py_float_normal:
  assumes "2 powi e \<le> \<bar>q\<bar>" and "\<bar>q\<bar> < 2 powi (e + 1)" and "- 1022 \<le> e"
  shows "py_float q =
           (if 2 powi 1024 \<le> \<bar>sgn q * of_int (round_half_even (\<bar>q\<bar> / 2 powi (e - 52))) * 2 powi (e - 52)\<bar>
            then Inl OverflowError
            else Inr (sgn q * of_int (round_half_even (\<bar>q\<bar> / 2 powi (e - 52))) * 2 powi (e - 52)))"
proof -
  have "floor_log2 \<bar>q\<bar> = e" using assms(1,2) by (rule floor_log2_eqI)
  moreover have "0 < \<bar>q\<bar>" using powi2_pos [of e] assms(1) by (rule less_le_trans)
  then have "q \<noteq> 0" by simp
  ultimately show ?thesis using assms(3) by (simp add: py_float_def Let_def max_def)
qed

text \<open>A magnitude bounded by an integer below \<open>2 ^ 53\<close> stays bounded by it.\<close>

lemma py_float_abs_le:
  assumes "\<bar>q\<bar> \<le> of_int n" and "n < 2 ^ 53"
  shows "\<exists>r. py_float q = Inr r \<and> \<bar>r\<bar> \<le> of_int n \<and> (0 \<le> q \<longrightarrow> 0 \<le> r) \<and> (q \<le> 0 \<longrightarrow> r \<le> 0)"
proof (cases "q = 0")
  case True
  with assms(1) show ?thesis by (simp add: py_float_def)
next
  case False
  then have a: "0 < \<bar>q\<bar>" by simp
  define e where "e = max (floor_log2 \<bar>q\<bar>) (- 1022)"
  define k where "k = nat (52 - e)"
  define m where "m = round_half_even (\<bar>q\<bar> / 2 powi (e - 52))"
  have "2 powi (floor_log2 \<bar>q\<bar>) \<le> \<bar>q\<bar>" using floor_log2_bounds [OF a] by simp
  also have "\<bar>q\<bar> \<le> of_int n" by (rule assms(1))
  also have "(of_int n :: rat) < of_int (2 ^ 53)" using assms(2) by (simp only: of_int_less_iff)
  also have "(of_int (2 ^ 53) :: rat) = 2 powi 53" by simp
  finally have "floor_log2 \<bar>q\<bar> < 53" by (simp only: powi2_less_iff)
  then have e52: "e \<le> 52" by (simp add: e_def)
  have ulp: "(2::rat) powi (e - 52) = 1 / 2 ^ k"
    using e52 by (simp add: k_def power_int_def inverse_eq_divide power_one_over)
  have "\<bar>q\<bar> / 2 powi (e - 52) = \<bar>q\<bar> * 2 ^ k" by (simp add: ulp)
  also have "\<dots> \<le> of_int n * 2 ^ k" using assms(1) by (simp add: mult_right_mono)
  also have "\<dots> = of_int (n * 2 ^ k)" by simp
  finally have m_le: "m \<le> n * 2 ^ k" unfolding m_def by (rule round_half_even_le)
  have "(of_int 0 :: rat) \<le> \<bar>q\<bar> / 2 powi (e - 52)" using powi2_pos [of "e - 52"] by simp
  then have m_ge: "0 \<le> m" unfolding m_def by (rule round_half_even_ge)
  define r where "r = sgn q * of_int m * 2 powi (e - 52)"
  have absr: "\<bar>r\<bar> = of_int m / 2 ^ k"
    using False m_ge by (simp add: r_def ulp abs_mult)
  have "of_int m / (2 ^ k :: rat) \<le> of_int (n * 2 ^ k) / 2 ^ k"
    using m_le by (simp add: divide_right_mono del: of_int_mult)
  then have r_le: "\<bar>r\<bar> \<le> of_int n" by (simp add: absr)
  have "(of_int n :: rat) < of_int (2 ^ 53)" using assms(2) by (simp only: of_int_less_iff)
  also have "(of_int (2 ^ 53) :: rat) \<le> 2 powi 1024" by simp
  finally have no_ovf: "\<not> 2 powi 1024 \<le> \<bar>r\<bar>" using r_le by simp
  have pf: "py_float q = Inr r"
    using False no_ovf by (simp add: py_float_def Let_def e_def [symmetric] m_def r_def)
  have "0 \<le> of_int m * (2::rat) powi (e - 52)" using m_ge powi2_pos [of "e - 52"] by simp
  then have sg: "(0 \<le> q \<longrightarrow> 0 \<le> r) \<and> (q \<le> 0 \<longrightarrow> r \<le> 0)"
    by (cases q "0::rat" rule: linorder_cases)
       (simp_all add: r_def mult.assoc)
  from pf r_le sg show ?thesis by blast
qed

text \<open>A value at or above a positive integer up to \<open>2 ^ 53\<close> stays at or above it.\<close>

lemma py_float_ge:
  assumes "of_int n \<le> q" and "1 \<le> n" and "n \<le> 2 ^ 53" and "py_float q = Inr r"
  shows "of_int n \<le> r"
proof -
  have q1: "1 \<le> q" using assms(1,2) by (meson of_int_1_le_iff order_trans)
  then have qpos: "0 < q" by simp
  then have absq: "\<bar>q\<bar> = q" and sgnq: "sgn q = 1" by simp_all
  define e where "e = floor_log2 q"
  have lo: "2 powi e \<le> q" and hi: "q < 2 powi (e + 1)"
    using floor_log2_bounds [OF qpos] by (simp_all add: e_def)
  have "(2::rat) powi 0 < 2 powi (e + 1)" using q1 hi by simp
  then have "0 < e + 1" by (simp only: powi2_less_iff)
  then have e0: "0 \<le> e" by simp
  define m where "m = round_half_even (q / 2 powi (e - 52))"
  have r: "r = of_int m * 2 powi (e - 52)"
    using assms(4) qpos e0
    by (simp add: py_float_def Let_def absq sgnq e_def [symmetric] m_def max_def split: if_splits)
  show ?thesis
  proof (cases "e \<le> 52")
    case True
    define k where "k = nat (52 - e)"
    have ulp: "(2::rat) powi (e - 52) = 1 / 2 ^ k"
      using True by (simp add: k_def power_int_def inverse_eq_divide power_one_over)
    have "(of_int (n * 2 ^ k) :: rat) = of_int n * 2 ^ k" by simp
    also have "\<dots> \<le> q * 2 ^ k" using assms(1) by (simp add: mult_right_mono)
    also have "\<dots> = q / 2 powi (e - 52)" by (simp add: ulp)
    finally have "n * 2 ^ k \<le> m" unfolding m_def by (rule round_half_even_ge)
    then have "(of_int (n * 2 ^ k) :: rat) \<le> of_int m" by (simp only: of_int_le_iff)
    then have "(of_int (n * 2 ^ k) :: rat) / 2 ^ k \<le> of_int m / 2 ^ k"
      by (simp add: divide_right_mono del: of_int_mult)
    then show ?thesis by (simp add: r ulp)
  next
    case False
    then have e53: "53 \<le> e" by simp
    have "(of_int (2 ^ 52) :: rat) = 2 powi e / 2 powi (e - 52)"
      by (simp flip: power_int_diff)
    also have "\<dots> \<le> q / 2 powi (e - 52)"
      using lo powi2_pos [of "e - 52"] by (simp add: divide_right_mono)
    finally have "2 ^ 52 \<le> m" unfolding m_def by (rule round_half_even_ge)
    then have "(of_int (2 ^ 52) :: rat) \<le> of_int m" by (simp only: of_int_le_iff)
    then have "(of_int (2 ^ 52) :: rat) * 2 powi (e - 52) \<le> r"
      unfolding r using powi2_pos [of "e - 52"] by (simp only: mult_le_cancel_right_pos)
    moreover have "(of_int (2 ^ 52) :: rat) * 2 powi (e - 52) = 2 powi e"
      using power_int_add [of "2::rat" 52 "e - 52"] by simp
    moreover have "(of_int n :: rat) \<le> of_int (2 ^ 53)" using assms(3) by (simp only: of_int_le_iff)
    moreover have "(of_int (2 ^ 53) :: rat) = 2 powi 53" by simp
    moreover have "(2::rat) powi 53 \<le> 2 powi e" using e53 by (rule powi2_mono)
    ultimately show ?thesis by simp
  qed
qed

text \<open>Integers of magnitude below \<open>2 ^ 53\<close> are doubles.\<close>

lemma py_float_of_int:
  assumes "0 \<le> n" and "n < 2 ^ 53"
  shows "py_float (of_int n) = Inr (of_int n)"
proof (cases "n = 0")
  case True
  then show ?thesis by (simp add: py_float_def)
next
  case False
  with assms(1) have n1: "1 \<le> n" by simp
  have "\<bar>of_int n :: rat\<bar> \<le> of_int n" using assms(1) by simp
  from py_float_abs_le [OF this assms(2)]
  obtain r where r: "py_float (of_int n) = Inr r" and le: "\<bar>r\<bar> \<le> of_int n" by blast
  have "of_int n \<le> r"
    using _ n1 _ r by (rule py_float_ge) (use assms(2) in simp_all)
  with le have "r = of_int n" by simp
  with r show ?thesis by simp
qed

subsection \<open>Concrete values\<close>

text \<open>\<open>100 / 1366\<close> and \<open>123 / 1920\<close> as doubles, and their products with 1920.\<close>

lemma floor_numeral_div: "\<lfloor>numeral a / numeral b :: rat\<rfloor> = numeral a div numeral b"
  using floor_divide_of_int_eq [of "numeral a" "numeral b", where ?'a = rat] by simp

lemmas powi_eval = power_int_minus power_int_numeral floor_numeral_div round_half_even_def Let_def

lemma py_float_100_1366: "py_float (100 / 1366) = Inr (1318770022656075 / 2 ^ 54)"
  by (simp add: py_float_normal [where e = "- 4"] powi_eval)

lemma py_float_100_1366_times_1920:
  "py_float (1318770022656075 / 2 ^ 54 * 1920) = Inr (4945387584960281 / 2 ^ 45)"
  by (simp add: py_float_normal [where e = "7"] powi_eval)

lemma py_float_123_1920: "py_float (123 / 1920) = Inr (4616189618054758 / 2 ^ 56)"
  by (simp add: py_float_normal [where e = "- 4"] powi_eval)

lemma py_float_123_1920_times_1920: "py_float (4616189618054758 / 2 ^ 56 * 1920) = Inr (8655355533852671 / 2 ^ 46)"
  by (simp add: py_float_normal [where e = "6"] powi_eval)

lemma scale_123_of_1920_onto_1920: "scale_coordinate 123 1920 1920 = Inr 122"
  using py_float_123_1920 py_float_123_1920_times_1920
  by (simp add: scale_coordinate_def py_float_of_int [of 1920, simplified] py_int_def floor_numeral_div)

lemma scale_100_of_1366_onto_1920: "scale_coordinate 100 1366 1920 = Inr 140"
  using py_float_100_1366 py_float_100_1366_times_1920
  by (simp add: scale_coordinate_def py_float_of_int [of 1920, simplified] py_int_def
        floor_numeral_div)

section \<open>Properties of the input handler\<close>

subsection \<open>Scaling a coordinate\<close>

lemma py_float_numeral:
  "numeral n < (2::int) ^ 53 \<Longrightarrow> py_float (numeral n) = Inr (numeral n)"
  using py_float_of_int [of "numeral n"] by simp

lemma py_int_of_int: "py_int (of_int n) = n"
  by (simp add: py_int_def)

lemma py_int_nonpos: "p \<le> 0 \<Longrightarrow> py_int p \<le> 0"
  by (cases "p = 0") (simp_all add: py_int_def)

lemma py_int_ge: "of_int n \<le> p \<Longrightarrow> 0 \<le> n \<Longrightarrow> n \<le> py_int p"
proof -
  assume "of_int n \<le> p" and "0 \<le> n"
  then have "0 \<le> p" by (meson of_int_0_le_iff order_trans)
  with \<open>of_int n \<le> p\<close> show ?thesis by (simp add: py_int_def le_floor_iff)
qed

text \<open>A coordinate left of (above) the source viewport is scaled to a value at or below 0.\<close>

lemma scale_coordinate_nonpos:
  assumes "v \<le> 0" and "1 \<le> s" and "- v \<le> k * s" and "0 \<le> W" and "W < 2 ^ 53" and "k * W < 2 ^ 53"
    and "0 \<le> k" and "k < 2 ^ 53"
  shows "\<exists>a. scale_coordinate v s W = Inr a \<and> a \<le> 0"
proof -
  let ?q0 = "of_int v / of_int s :: rat"
  have spos: "(0::rat) < of_int s" using assms(2) by simp
  have q0_le: "?q0 \<le> 0" using assms(1) spos by (simp add: divide_le_0_iff)
  have "(of_int (- v) :: rat) \<le> of_int (k * s)" using assms(3) by (simp only: of_int_le_iff)
  then have "- of_int v \<le> of_int k * (of_int s :: rat)" by simp
  then have "(- of_int v) / of_int s \<le> (of_int k :: rat)"
    by (simp only: pos_divide_le_eq [OF spos])
  then have "- ?q0 \<le> of_int k" by (simp only: minus_divide_left)
  with q0_le have "\<bar>?q0\<bar> \<le> of_int k" by simp
  from py_float_abs_le [OF this assms(8)]
  obtain q where q: "py_float ?q0 = Inr q" and qk: "\<bar>q\<bar> \<le> of_int k" and q0: "q \<le> 0"
    using q0_le by blast
  have w: "py_float (of_int W) = Inr (of_int W)" using assms(4,5) by (rule py_float_of_int)
  have Wnn: "(0::rat) \<le> of_int W" using assms(4) by simp
  have "\<bar>q * of_int W\<bar> = \<bar>q\<bar> * of_int W" using Wnn by (simp add: abs_mult)
  also have "\<dots> \<le> of_int k * of_int W" using qk Wnn by (rule mult_right_mono)
  finally have "\<bar>q * of_int W\<bar> \<le> of_int (k * W)" by simp
  from py_float_abs_le [OF this assms(6)]
  obtain p where p: "py_float (q * of_int W) = Inr p" and p0: "q * of_int W \<le> 0 \<longrightarrow> p \<le> 0"
    by blast
  have "q * of_int W \<le> 0" using q0 Wnn by (simp add: mult_le_0_iff)
  with p0 have "p \<le> 0" by simp
  then have "py_int p \<le> 0" by (rule py_int_nonpos)
  moreover have "scale_coordinate v s W = Inr (py_int p)"
    using assms(2) q w p by (simp add: scale_coordinate_def)
  ultimately show ?thesis by blast
qed

text \<open>A coordinate at or beyond the right (lower) edge of the source viewport is scaled to
  a value at or beyond the local dimension.\<close>

lemma scale_coordinate_ge:
  assumes "1 \<le> s" and "s \<le> v" and "v \<le> k * s" and "1 \<le> W" and "k * W < 2 ^ 53"
    and "k < 2 ^ 53"
  shows "\<exists>a. scale_coordinate v s W = Inr a \<and> W \<le> a"
proof -
  let ?q0 = "of_int v / of_int s :: rat"
  have spos: "(0::rat) < of_int s" using assms(1) by simp
  have "(of_int s :: rat) \<le> of_int v" using assms(2) by (simp only: of_int_le_iff)
  then have q0_ge: "of_int 1 \<le> ?q0" using spos by (simp add: pos_le_divide_eq)
  have "(of_int v :: rat) \<le> of_int (k * s)" using assms(3) by (simp only: of_int_le_iff)
  then have "?q0 \<le> of_int k" using spos by (simp add: pos_divide_le_eq)
  with q0_ge have "\<bar>?q0\<bar> \<le> of_int k" by simp
  from py_float_abs_le [OF this assms(6)]
  obtain q where q: "py_float ?q0 = Inr q" and qk: "\<bar>q\<bar> \<le> of_int k" by blast
  have q1: "of_int 1 \<le> q" using q0_ge _ _ q by (rule py_float_ge) simp_all
  have k1: "1 \<le> k" using q1 qk by (metis abs_le_D1 of_int_le_iff order_trans)
  have W53: "W < 2 ^ 53" 
  proof -
    have "W * 1 \<le> W * k" using k1 assms(4) by (intro mult_left_mono) simp_all
    with assms(5) show ?thesis by (simp add: mult.commute)
  qed
  have w: "py_float (of_int W) = Inr (of_int W)" using assms(4) W53 by (intro py_float_of_int) simp_all
  have Wnn: "(0::rat) \<le> of_int W" using assms(4) by simp
  have "\<bar>q * of_int W\<bar> = \<bar>q\<bar> * of_int W" using Wnn by (simp add: abs_mult)
  also have "\<dots> \<le> of_int k * of_int W" using qk Wnn by (rule mult_right_mono)
  finally have "\<bar>q * of_int W\<bar> \<le> of_int (k * W)" by simp
  from py_float_abs_le [OF this assms(5)]
  obtain p where p: "py_float (q * of_int W) = Inr p" by blast
  have "of_int 1 * (of_int W :: rat) \<le> q * of_int W" using q1 Wnn by (rule mult_right_mono)
  then have "of_int W \<le> q * of_int W" by simp
  then have "of_int W \<le> p" using assms(4) _ p by (rule py_float_ge) (use W53 in simp)
  then have "W \<le> py_int p" using assms(4) by (intro py_int_ge) simp_all
  moreover have "scale_coordinate v s W = Inr (py_int p)"
    using assms(1) q w p by (simp add: scale_coordinate_def)
  ultimately show ?thesis by blast
qed

lemma py_float_zero: "py_float 0 = Inr 0"
  by (simp add: py_float_def)

lemma scale_zero:
  assumes "s \<noteq> 0" and "0 \<le> d" and "d < 2 ^ 53"
  shows "scale_coordinate 0 s d = Inr 0"
proof -
  have "py_float (of_int d) = Inr (of_int d)" using assms(2,3) by (rule py_float_of_int)
  then show ?thesis using assms(1) by (simp add: scale_coordinate_def py_float_zero py_int_def)
qed

lemma scale_3840_of_1920_onto_1920: "scale_coordinate 3840 1920 1920 = Inr 3840"
  by (simp add: scale_coordinate_def py_float_numeral py_int_def)

lemma py_int_trunc: "py_int p = (if 0 \<le> p then \<lfloor>p\<rfloor> else \<lceil>p\<rceil>)"
  by (simp add: py_int_def ceiling_def)

lemma scale_coordinate_InrD:
  assumes "scale_coordinate v s d = Inr a"
  shows "s \<noteq> 0 \<and> (\<exists>q w p. py_float (of_int v / of_int s) = Inr q \<and> py_float (of_int d) = Inr w
            \<and> py_float (q * w) = Inr p \<and> a = (if 0 \<le> p then \<lfloor>p\<rfloor> else \<lceil>p\<rceil>))"
  using assms
  by (auto simp: scale_coordinate_def py_int_trunc split: if_splits sum.splits)

subsection \<open>Pointer moves\<close>

lemma mouse_move_dispatch:
  assumes "is_authorized h sid"
    and "scale_coordinate x sw (screen_width h) = Inr ax"
    and "scale_coordinate y sh (screen_height h) = Inr ay"
    and "os_ok (MoveTo (max 0 (min ax (screen_width h - 1))) (max 0 (min ay (screen_height h - 1))))"
  shows "handle_mouse_move os_ok h sid x y sw sh =
           (True, h\<lparr>dispatched := dispatched h @
              [MoveTo (max 0 (min ax (screen_width h - 1))) (max 0 (min ay (screen_height h - 1)))]\<rparr>)"
  using assms by (simp add: handle_mouse_move_def perform_def)

lemma mouse_move_off_screen:
  assumes "is_authorized h sid" and "screen_width h = W" and "screen_height h = H"
    and "1 \<le> W" and "W < 2 ^ 50" and "1 \<le> H" and "H < 2 ^ 50"
    and "os_ok (MoveTo 0 (H - 1))"
  shows "handle_mouse_move os_ok h sid (- 5) (H + 5) W H =
           (True, h\<lparr>dispatched := dispatched h @ [MoveTo 0 (H - 1)]\<rparr>)"
proof -
  have "\<exists>a. scale_coordinate (- 5) W W = Inr a \<and> a \<le> 0"
    by (rule scale_coordinate_nonpos [where k = 5]) (use assms(4,5) in simp_all)
  then obtain ax where ax: "scale_coordinate (- 5) W W = Inr ax" and ax0: "ax \<le> 0" by blast
  have "\<exists>a. scale_coordinate (H + 5) H H = Inr a \<and> H \<le> a"
    by (rule scale_coordinate_ge [where k = 6]) (use assms(6,7) in simp_all)
  then obtain ay where ay: "scale_coordinate (H + 5) H H = Inr ay" and ayH: "H \<le> ay" by blast
  have cx: "max 0 (min ax (W - 1)) = 0" using ax0 assms(4) by simp
  have cy: "max 0 (min ay (H - 1)) = H - 1" using ayH assms(6) by simp
  show ?thesis
    using mouse_move_dispatch [of h sid "- 5" W ax "H + 5" H ay os_ok] assms(1,2,3,8) ax ay
    by (simp add: cx cy)
qed

text \<open>
  Claim C4, as amended. For an authorized \<open>handle_mouse_move\<close> whose two scalings raise no
  exception and whose move the operating system accepts, the call returns \<open>True\<close> and
  dispatches one move to the scaled coordinates clamped to \<open>[0, screen_width - 1]\<close> and
  \<open>[0, screen_height - 1]\<close>. A scaled coordinate is \<open>int((v / s) * d)\<close>: the quotient rounded
  to a double, times \<open>d\<close>, rounded to a double, truncated toward zero (floor when
  non-negative, ceiling when negative) and not rounded to the nearest integer. With a
  local dimension of at least 1 the clamped value lies in \<open>[0, d - 1]\<close>. On a screen of
  \<open>W\<close> by \<open>H\<close> pixels (both between 1 and \<open>2 ^ 50\<close>) a move to \<open>(-5, H + 5)\<close> reported for a
  viewport of the same size is dispatched at \<open>(0, H - 1)\<close>.
\<close>

theorem mouse_move_truncates_then_clamps:
  "(is_authorized h sid \<and> scale_coordinate x sw (screen_width h) = Inr ax
      \<and> scale_coordinate y sh (screen_height h) = Inr ay
      \<and> os_ok (MoveTo (max 0 (min ax (screen_width h - 1))) (max 0 (min ay (screen_height h - 1))))
    \<longrightarrow> handle_mouse_move os_ok h sid x y sw sh =
          (True, h\<lparr>dispatched := dispatched h @
             [MoveTo (max 0 (min ax (screen_width h - 1))) (max 0 (min ay (screen_height h - 1)))]\<rparr>))
   \<and> (scale_coordinate v s d = Inr a
    \<longrightarrow> s \<noteq> 0 \<and> (\<exists>q w p. py_float (of_int v / of_int s) = Inr q \<and> py_float (of_int d) = Inr w
            \<and> py_float (q * w) = Inr p \<and> a = (if 0 \<le> p then \<lfloor>p\<rfloor> else \<lceil>p\<rceil>)))
   \<and> (1 \<le> d \<longrightarrow> 0 \<le> max 0 (min a (d - 1)) \<and> max 0 (min a (d - 1)) \<le> d - 1)
   \<and> (is_authorized h sid \<and> screen_width h = W \<and> screen_height h = H
      \<and> 1 \<le> W \<and> W < 2 ^ 50 \<and> 1 \<le> H \<and> H < 2 ^ 50 \<and> os_ok (MoveTo 0 (H - 1))
    \<longrightarrow> handle_mouse_move os_ok h sid (- 5) (H + 5) W H =
          (True, h\<lparr>dispatched := dispatched h @ [MoveTo 0 (H - 1)]\<rparr>))"
  using mouse_move_dispatch [of h sid x sw ax y sh ay os_ok]
        scale_coordinate_InrD [of v s d a]
        mouse_move_off_screen [of h sid W H os_ok]
  by auto

text \<open>The theorem on the 1920 by 1080 screen: a move to \<open>(123, 0)\<close> and a move to
  \<open>(-5, 1085)\<close>, both reported for a 1920 by 1080 viewport.\<close>

theorem mouse_move_truncates_then_clamps_witness:
  "handle_mouse_move (\<lambda>a. True) example_handler ''c1'' 123 0 1920 1080
     = (True, example_handler\<lparr>dispatched := [MoveTo 122 0]\<rparr>)
   \<and> handle_mouse_move (\<lambda>a. True) example_handler ''c1'' (- 5) 1085 1920 1080
     = (True, example_handler\<lparr>dispatched := [MoveTo 0 1079]\<rparr>)"
  using mouse_move_truncates_then_clamps [where h = example_handler and sid = "''c1''"
          and x = 123 and sw = 1920 and ax = 122 and y = 0 and sh = 1080 and ay = 0
          and os_ok = "\<lambda>a. True" and W = 1920 and H = 1080 and v = 123 and s = 1920 and d = 1920
          and a = 122]
        scale_123_of_1920_onto_1920 scale_zero [of 1080 1080]
  by (simp add: example_handler_def authorize_session_def init_input_handler_def is_authorized_def)

text \<open>
  Claim C4 as stated gives \<open>round(value / sourceDim * localDim)\<close>, clamped. On the
  1920 by 1080 screen a move to \<open>(100, 0)\<close> reported for a 1366 by 768 viewport is
  dispatched at column 140, where rounding \<open>100 / 1366 * 1920\<close> (about 140.56) gives column
  141. With equal source and local sizes the claim gives exactly \<open>(x, y)\<close>; a move to
  \<open>(123, 0)\<close> reported for a 1920 by 1080 viewport is dispatched at column 122, since
  \<open>(123 / 1920) * 1920\<close> in doubles lies just below 123.
\<close>

theorem mouse_move_not_rounded:
  "dispatched (snd (handle_mouse_move (\<lambda>a. True) example_handler ''c1'' 100 0 1366 768))
       = [MoveTo 140 0]
   \<and> max 0 (min (round (100 / 1366 * 1920 :: rat)) (1920 - 1)) = 141
   \<and> dispatched (snd (handle_mouse_move (\<lambda>a. True) example_handler ''c1'' 123 0 1920 1080))
       = [MoveTo 122 0]"
  using scale_100_of_1366_onto_1920 scale_123_of_1920_onto_1920
    scale_zero [of 768 1080] scale_zero [of 1080 1080]
  by (simp add: handle_mouse_move_def perform_def example_handler_def
        authorize_session_def init_input_handler_def is_authorized_def round_def
        floor_numeral_div)

subsection \<open>The authorization check\<close>

lemma perform_accepting: "\<forall>a. os_ok a \<Longrightarrow> fst (perform os_ok a h)"
  by (simp add: perform_def)

lemma handlers_unauthorized:
  assumes "sid \<notin> authorized_sessions h"
  shows "handle_mouse_move os_ok h sid x y sw sh = (False, h)"
    and "handle_mouse_click os_ok h sid x y sw sh button click_type = (False, h)"
    and "handle_mouse_scroll os_ok h sid x y sw sh delta = (False, h)"
    and "handle_key_press os_ok h sid key action = (False, h)"
    and "handle_key_combination os_ok h sid keys = (False, h)"
    and "handle_text_input os_ok h sid tx = (False, h)"
  using assms
  by (simp_all add: is_authorized_def handle_mouse_move_def handle_mouse_click_def
        handle_mouse_scroll_def handle_key_press_def handle_key_combination_def
        handle_text_input_def)

lemma handlers_authorized:
  assumes "is_authorized h sid" and "\<forall>a. os_ok a"
    and "scale_coordinate x sw (screen_width h) = Inr ax"
    and "scale_coordinate y sh (screen_height h) = Inr ay"
  shows "fst (handle_mouse_move os_ok h sid x y sw sh)"
    and "fst (handle_mouse_click os_ok h sid x y sw sh button click_type)"
    and "fst (handle_mouse_scroll os_ok h sid x y sw sh delta)"
    and "fst (handle_key_press os_ok h sid key action)"
    and "fst (handle_key_combination os_ok h sid keys)"
    and "fst (handle_text_input os_ok h sid tx)"
  using assms
  by (simp_all add: handle_mouse_move_def handle_mouse_click_def
        handle_mouse_scroll_def handle_key_press_def handle_key_combination_def
        handle_text_input_def perform_def Let_def split: option.splits)

text \<open>
  Claim C3. For a connection id that is not in \<open>authorized_sessions\<close>, each of the six
  handlers returns \<open>False\<close> and leaves the handler, hence the list of dispatched actions, as
  it was. After \<open>authorize_session\<close> the id is authorized, and the same six calls return
  \<open>True\<close> whenever the operating system accepts the actions and the pointer scalings raise
  no exception (the key and text handlers do no scaling).
\<close>

theorem unauthorized_input_rejected:
  "(sid \<notin> authorized_sessions h \<longrightarrow>
       handle_mouse_move os_ok h sid x y sw sh = (False, h)
     \<and> handle_mouse_click os_ok h sid x y sw sh button click_type = (False, h)
     \<and> handle_mouse_scroll os_ok h sid x y sw sh delta = (False, h)
     \<and> handle_key_press os_ok h sid key action = (False, h)
     \<and> handle_key_combination os_ok h sid keys = (False, h)
     \<and> handle_text_input os_ok h sid tx = (False, h))
   \<and> is_authorized (authorize_session sid h) sid
   \<and> ((\<forall>a. os_ok a) \<and> scale_coordinate x sw (screen_width h) = Inr ax
        \<and> scale_coordinate y sh (screen_height h) = Inr ay \<longrightarrow>
       fst (handle_mouse_move os_ok (authorize_session sid h) sid x y sw sh)
     \<and> fst (handle_mouse_click os_ok (authorize_session sid h) sid x y sw sh button click_type)
     \<and> fst (handle_mouse_scroll os_ok (authorize_session sid h) sid x y sw sh delta)
     \<and> fst (handle_key_press os_ok (authorize_session sid h) sid key action)
     \<and> fst (handle_key_combination os_ok (authorize_session sid h) sid keys)
     \<and> fst (handle_text_input os_ok (authorize_session sid h) sid tx))"
proof -
  have auth: "is_authorized (authorize_session sid h) sid"
    by (simp add: is_authorized_def authorize_session_def)
  have dims: "screen_width (authorize_session sid h) = screen_width h"
    "screen_height (authorize_session sid h) = screen_height h"
    by (simp_all add: authorize_session_def)
  have rejected: "sid \<notin> authorized_sessions h \<longrightarrow>
       handle_mouse_move os_ok h sid x y sw sh = (False, h)
     \<and> handle_mouse_click os_ok h sid x y sw sh button click_type = (False, h)
     \<and> handle_mouse_scroll os_ok h sid x y sw sh delta = (False, h)
     \<and> handle_key_press os_ok h sid key action = (False, h)
     \<and> handle_key_combination os_ok h sid keys = (False, h)
     \<and> handle_text_input os_ok h sid tx = (False, h)"
    by (simp add: handlers_unauthorized)
  have accepted: "(\<forall>a. os_ok a) \<and> scale_coordinate x sw (screen_width h) = Inr ax
        \<and> scale_coordinate y sh (screen_height h) = Inr ay \<longrightarrow>
       fst (handle_mouse_move os_ok (authorize_session sid h) sid x y sw sh)
     \<and> fst (handle_mouse_click os_ok (authorize_session sid h) sid x y sw sh button click_type)
     \<and> fst (handle_mouse_scroll os_ok (authorize_session sid h) sid x y sw sh delta)
     \<and> fst (handle_key_press os_ok (authorize_session sid h) sid key action)
     \<and> fst (handle_key_combination os_ok (authorize_session sid h) sid keys)
     \<and> fst (handle_text_input os_ok (authorize_session sid h) sid tx)"
  proof
    assume H: "(\<forall>a. os_ok a) \<and> scale_coordinate x sw (screen_width h) = Inr ax
        \<and> scale_coordinate y sh (screen_height h) = Inr ay"
    then have 1: "\<forall>a. os_ok a"
      and 2: "scale_coordinate x sw (screen_width (authorize_session sid h)) = Inr ax"
      and 3: "scale_coordinate y sh (screen_height (authorize_session sid h)) = Inr ay"
      by (simp_all add: dims)
    show "fst (handle_mouse_move os_ok (authorize_session sid h) sid x y sw sh)
     \<and> fst (handle_mouse_click os_ok (authorize_session sid h) sid x y sw sh button click_type)
     \<and> fst (handle_mouse_scroll os_ok (authorize_session sid h) sid x y sw sh delta)
     \<and> fst (handle_key_press os_ok (authorize_session sid h) sid key action)
     \<and> fst (handle_key_combination os_ok (authorize_session sid h) sid keys)
     \<and> fst (handle_text_input os_ok (authorize_session sid h) sid tx)"
      by (simp add: handlers_authorized [OF auth 1 2 3])
  qed
  from rejected auth accepted show ?thesis by blast
qed

text \<open>The theorem on six calls by connection \<open>c1\<close>, before and after it is authorized.\<close>

theorem unauthorized_input_rejected_witness:
  "typical_calls (\<lambda>a. True) (init_input_handler 1920 1080) ''c1''
     = [False, False, False, False, False, False]
   \<and> handle_text_input (\<lambda>a. True) (init_input_handler 1920 1080) ''c1'' ''hello''
     = (False, init_input_handler 1920 1080)
   \<and> typical_calls (\<lambda>a. True) (authorize_session ''c1'' (init_input_handler 1920 1080)) ''c1''
     = [True, True, True, True, True, True]"
  using unauthorized_input_rejected [where sid = "''c1''" and h = "init_input_handler 1920 1080"
          and os_ok = "\<lambda>a. True" and x = 3840 and y = 0 and sw = 1920 and sh = 1080
          and ax = 3840 and ay = 0 and button = "''left''" and click_type = "''single''"
          and delta = 1 and key = "''Enter''" and action = "''press''"
          and keys = "[''Ctrl'', ''C'']" and tx = "''hello''"]
        scale_3840_of_1920_onto_1920 scale_zero [of 1080 1080]
  by (simp add: typical_calls_def init_input_handler_def)

subsection \<open>Keys\<close>

text \<open>The key table, the lower-casing fallback and the modifier names on examples; an
  action name other than \<open>press\<close>, \<open>down\<close>, \<open>up\<close> dispatches nothing and still returns
  \<open>True\<close>.\<close>

lemma lower_examples:
  "lower ''Q'' = ''q''" "lower ''C'' = ''c''" "lower ''Ctrl'' = ''ctrl''" "lower ''Cmd'' = ''cmd''"
  by code_simp+

lemma key_handlers_examples:
  "dispatched (snd (handle_key_combination (\<lambda>a. True) example_handler ''c1''
      [''Ctrl'', ''Cmd'', ''C''])) = [Hotkey [''ctrl'', ''win'', ''c'']]"
  "dispatched (snd (handle_key_press (\<lambda>a. True) example_handler ''c1'' ''ArrowLeft'' ''down''))
     = [KeyDown ''left'']"
  "dispatched (snd (handle_key_press (\<lambda>a. True) example_handler ''c1'' ''Q'' ''press''))
     = [Press ''q'']"
  "handle_key_press (\<lambda>a. True) example_handler ''c1'' ''Q'' ''hold'' = (True, example_handler)"
  by (simp_all add: handle_key_combination_def handle_key_press_def perform_def convert_key_def
        lower_examples key_mapping_def key_action_def example_handler_def
        authorize_session_def init_input_handler_def is_authorized_def)

subsection \<open>Scrolling\<close>

lemma mouse_scroll_dispatch:
  assumes "is_authorized h sid"
    and "scale_coordinate x sw (screen_width h) = Inr ax"
    and "scale_coordinate y sh (screen_height h) = Inr ay"
    and "os_ok (Scroll delta ax ay)"
  shows "handle_mouse_scroll os_ok h sid x y sw sh delta =
           (True, h\<lparr>dispatched := dispatched h @ [Scroll delta ax ay]\<rparr>)"
  using assms by (simp add: handle_mouse_scroll_def perform_def)

lemma mouse_scroll_beyond_edge:
  assumes "is_authorized h sid" and "\<forall>a. os_ok a"
    and "1 \<le> sw" and "sw \<le> x" and "x \<le> k * sw"
    and "1 \<le> screen_width h" and "k * screen_width h < 2 ^ 53" and "k < 2 ^ 53"
    and "scale_coordinate y sh (screen_height h) = Inr ay"
  shows "\<exists>ax. screen_width h - 1 < ax \<and>
           handle_mouse_scroll os_ok h sid x y sw sh delta =
             (True, h\<lparr>dispatched := dispatched h @ [Scroll delta ax ay]\<rparr>)"
proof -
  from scale_coordinate_ge [OF assms(3,4,5,6,7,8)]
  obtain ax where ax: "scale_coordinate x sw (screen_width h) = Inr ax"
    and ge: "screen_width h \<le> ax" by blast
  have "handle_mouse_scroll os_ok h sid x y sw sh delta =
          (True, h\<lparr>dispatched := dispatched h @ [Scroll delta ax ay]\<rparr>)"
    using assms(1) ax assms(9) by (rule mouse_scroll_dispatch) (use assms(2) in simp)
  with ge show ?thesis by (intro exI [of _ ax]) simp
qed

text \<open>
  Claim C10. An authorized \<open>handle_mouse_scroll\<close> whose scalings raise no exception
  dispatches the scroll at the scaled coordinates themselves, with no clamping. Whenever
  the pointer is at or beyond the right edge of the reported viewport (\<open>x \<ge> sw\<close>), the
  dispatched column is beyond \<open>screen_width - 1\<close>. On the 1920 by 1080 screen, \<open>x = 3840\<close>
  reported for a viewport 1920 wide scrolls at column 3840, where \<open>handle_mouse_move\<close> and
  \<open>handle_mouse_click\<close> with the same arguments act at column 1919.
\<close>

theorem mouse_scroll_not_clamped:
  "(is_authorized h sid \<and> scale_coordinate x sw (screen_width h) = Inr ax
      \<and> scale_coordinate y sh (screen_height h) = Inr ay \<and> os_ok (Scroll delta ax ay)
    \<longrightarrow> handle_mouse_scroll os_ok h sid x y sw sh delta =
          (True, h\<lparr>dispatched := dispatched h @ [Scroll delta ax ay]\<rparr>))
   \<and> (is_authorized h sid \<and> (\<forall>a. os_ok a) \<and> 1 \<le> sw \<and> sw \<le> x \<and> x \<le> k * sw
      \<and> 1 \<le> screen_width h \<and> k * screen_width h < 2 ^ 53 \<and> k < 2 ^ 53
      \<and> scale_coordinate y sh (screen_height h) = Inr ay
    \<longrightarrow> (\<exists>ax. screen_width h - 1 < ax \<and>
           handle_mouse_scroll os_ok h sid x y sw sh delta =
             (True, h\<lparr>dispatched := dispatched h @ [Scroll delta ax ay]\<rparr>)))
   \<and> handle_mouse_scroll (\<lambda>a. True) example_handler ''c1'' 3840 0 1920 1080 1
       = (True, example_handler\<lparr>dispatched := [Scroll 1 3840 0]\<rparr>)
   \<and> handle_mouse_move (\<lambda>a. True) example_handler ''c1'' 3840 0 1920 1080
       = (True, example_handler\<lparr>dispatched := [MoveTo 1919 0]\<rparr>)
   \<and> handle_mouse_click (\<lambda>a. True) example_handler ''c1'' 3840 0 1920 1080 ''left'' ''single''
       = (True, example_handler\<lparr>dispatched := [Click 1919 0 ''left'']\<rparr>)
   \<and> screen_width example_handler = 1920"
proof -
  have ex: "is_authorized example_handler ''c1''" "screen_width example_handler = 1920"
    "screen_height example_handler = 1080" "dispatched example_handler = []"
    by (simp_all add: example_handler_def authorize_session_def init_input_handler_def
          is_authorized_def)
  have sy: "scale_coordinate 0 1080 1080 = Inr 0" by (rule scale_zero) simp_all
  have 3: "handle_mouse_scroll (\<lambda>a. True) example_handler ''c1'' 3840 0 1920 1080 1
       = (True, example_handler\<lparr>dispatched := [Scroll 1 3840 0]\<rparr>)"
    using ex scale_3840_of_1920_onto_1920 sy by (simp add: handle_mouse_scroll_def perform_def)
  have 4: "handle_mouse_move (\<lambda>a. True) example_handler ''c1'' 3840 0 1920 1080
       = (True, example_handler\<lparr>dispatched := [MoveTo 1919 0]\<rparr>)"
    using ex scale_3840_of_1920_onto_1920 sy by (simp add: handle_mouse_move_def perform_def)
  have 5: "handle_mouse_click (\<lambda>a. True) example_handler ''c1'' 3840 0 1920 1080 ''left'' ''single''
       = (True, example_handler\<lparr>dispatched := [Click 1919 0 ''left'']\<rparr>)"
    using ex scale_3840_of_1920_onto_1920 sy by (simp add: handle_mouse_click_def click_action_def perform_def)
  show ?thesis
    using mouse_scroll_dispatch [of h sid x sw ax y sh ay os_ok delta]
      mouse_scroll_beyond_edge [of h sid os_ok sw x k y sh ay delta] 3 4 5 ex(2)
    by blast
qed

text \<open>The theorem on the 1920 by 1080 screen, at \<open>x = 3840\<close> and at \<open>x = 2000\<close>.\<close>

theorem mouse_scroll_not_clamped_witness:
  "handle_mouse_scroll (\<lambda>a. True) example_handler ''c1'' 3840 0 1920 1080 7
     = (True, example_handler\<lparr>dispatched := [Scroll 7 3840 0]\<rparr>)
   \<and> (\<exists>ax. 1919 < ax \<and> handle_mouse_scroll (\<lambda>a. True) example_handler ''c1'' 2000 0 1920 1080 7
        = (True, example_handler\<lparr>dispatched := [Scroll 7 ax 0]\<rparr>))"
  using mouse_scroll_not_clamped [where h = example_handler and sid = "''c1''" and x = 3840
          and sw = 1920 and ax = 3840 and y = 0 and sh = 1080 and ay = 0
          and os_ok = "\<lambda>a. True" and delta = 7 and k = 2]
        mouse_scroll_not_clamped [where h = example_handler and sid = "''c1''" and x = 2000
          and sw = 1920 and ax = 3840 and y = 0 and sh = 1080 and ay = 0
          and os_ok = "\<lambda>a. True" and delta = 7 and k = 2]
        scale_3840_of_1920_onto_1920 scale_zero [of 1080 1080]
  by (simp add: example_handler_def authorize_session_def init_input_handler_def is_authorized_def)

end
